theory Spec2Isabelle
  imports Main "HOL-Library.AList" "HOL-Library.Multiset"
begin

section \<open>Values, identifiers and documents\<close>

text \<open>
  The handlers of \<^verbatim>\<open>main.py\<close> work on Python dictionaries: the documents of the store,
  the \<^verbatim>\<open>$set\<close> argument of an update, the JSON objects they return. A dictionary is an
  association list here (\<open>map_of\<close> reads a key, \<open>AList.update\<close> assigns one and keeps the
  position of a key that is already there, \<open>AList.delete\<close> removes one), which is the
  insertion-ordered dictionary of Python.

  \<^verbatim>\<open>bson.ObjectId\<close> holds the bytes of a key, kept here as the lower-case hexadecimal
  digits that \<^verbatim>\<open>str()\<close> prints. The constructor \<^verbatim>\<open>ObjectId(s)\<close> accepts a string of
  length 24 that \<^verbatim>\<open>bytes.fromhex\<close> decodes, and raises \<^verbatim>\<open>InvalidId\<close> otherwise.
  \<^verbatim>\<open>bytes.fromhex\<close> reads pairs of hexadecimal digits, in either case, and skips ASCII
  white space before a pair and at the end; so a string of 24 characters with white space
  in it gives a key of fewer than twelve bytes, which no stored document has.
\<close>

datatype objectid = Oid (str_oid: string)

datatype py_error = InvalidId string | KeyError string | TypeError | StoreUnavailable

definition hexdigits :: string where
  "hexdigits = ''0123456789abcdefABCDEF''"

definition lower_hex :: "char \<Rightarrow> char" where
  "lower_hex c =
     (if c = CHR ''A'' then CHR ''a'' else if c = CHR ''B'' then CHR ''b''
      else if c = CHR ''C'' then CHR ''c'' else if c = CHR ''D'' then CHR ''d''
      else if c = CHR ''E'' then CHR ''e'' else if c = CHR ''F'' then CHR ''f'' else c)"

definition isspace :: "char \<Rightarrow> bool" where
  "isspace c \<longleftrightarrow>
     c \<in> set [CHR '' '', CHR 0x09, CHR 0x0A, CHR 0x0B, CHR 0x0C, CHR 0x0D]"

fun fromhex :: "string \<Rightarrow> string option" where
  "fromhex [] = Some []"
| "fromhex [c] = (if isspace c then Some [] else None)"
| "fromhex (c # d # cs) =
     (if isspace c then fromhex (d # cs)
      else if c \<in> set hexdigits \<and> d \<in> set hexdigits
      then (case fromhex cs of
              None \<Rightarrow> None
            | Some bs \<Rightarrow> Some (lower_hex c # lower_hex d # bs))
      else None)"

definition ObjectId :: "string \<Rightarrow> py_error + objectid" where
  "ObjectId oid =
     (if length oid = 24
      then (case fromhex oid of None \<Rightarrow> Inl (InvalidId oid) | Some bs \<Rightarrow> Inr (Oid bs))
      else Inl (InvalidId oid))"

text \<open>The identifiers the store generates: 24 lower-case hexadecimal digits.\<close>

definition generated_oid :: "objectid \<Rightarrow> bool" where
  "generated_oid oid \<longleftrightarrow>
     length (str_oid oid) = 24 \<and> list_all (\<lambda>c. c \<in> set ''0123456789abcdef'') (str_oid oid)"

text \<open>
  A point in time is a natural number (the clock's reading, in the unit the store keeps).
  \<open>VDatetime t\<close> is the \<^verbatim>\<open>datetime\<close> object, \<open>VIsoformat t\<close> the string that its
  \<^verbatim>\<open>isoformat()\<close> returns, and \<open>VStrOf v\<close> the string \<^verbatim>\<open>str(v)\<close> of a value whose
  printed form is not spelled out.
\<close>

datatype val =
    VNone
  | VStr string
  | VBool bool
  | VDatetime nat
  | VIsoformat nat
  | VObjectId objectid
  | VStrOf val
  | VList "(string \<times> val) list list"

type_synonym doc = "(string \<times> val) list"

text \<open>The database handle \<^verbatim>\<open>db\<close>: \<^verbatim>\<open>db[name]\<close> is a collection, its documents in
  insertion order. The module-level \<^verbatim>\<open>db\<close> is \<^verbatim>\<open>None\<close> when there is no connection.\<close>

type_synonym database = "string \<Rightarrow> doc list"

definition no_documents :: database where
  "no_documents = (\<lambda>name. [])"

datatype detail = Ticket_not_found | Str py_error | Validation_error

datatype http_exception = HTTPException (status_code: nat) (detail: detail)

definition client_error :: "nat \<Rightarrow> bool" where
  "client_error code \<longleftrightarrow> 400 \<le> code \<and> code < 500"

definition server_error :: "nat \<Rightarrow> bool" where
  "server_error code \<longleftrightarrow> 500 \<le> code \<and> code < 600"

section \<open>The operations of the store client\<close>

text \<open>A query \<^verbatim>\<open>{k: v, ...}\<close> matches a document that has every \<open>k\<close> with the value \<open>v\<close>.\<close>

definition matches :: "doc \<Rightarrow> doc \<Rightarrow> bool" where
  "matches flt d = list_all (\<lambda>(k, v). map_of d k = Some v) flt"

definition find_coll :: "doc list \<Rightarrow> doc \<Rightarrow> doc list" where
  "find_coll coll flt = filter (matches flt) coll"

definition find_one :: "doc list \<Rightarrow> doc \<Rightarrow> doc option" where
  "find_one coll flt = (case find_coll coll flt of [] \<Rightarrow> None | d # ds \<Rightarrow> Some d)"

text \<open>\<^verbatim>\<open>{"$set": to_set}\<close> assigns each field of \<open>to_set\<close>.\<close>

definition set_fields :: "doc \<Rightarrow> doc \<Rightarrow> doc" where
  "set_fields to_set d = fold (\<lambda>(k, v). AList.update k v) to_set d"

text \<open>\<^verbatim>\<open>find_one_and_update(flt, {"$set": to_set}, return_document=True)\<close>: the first
  matching document is updated in place and returned as it is after the update; without a
  match nothing is written and the result is \<^verbatim>\<open>None\<close>.\<close>

fun find_one_and_update :: "doc list \<Rightarrow> doc \<Rightarrow> doc \<Rightarrow> doc list \<times> doc option" where
  "find_one_and_update [] flt to_set = ([], None)"
| "find_one_and_update (d # ds) flt to_set =
     (if matches flt d then (set_fields to_set d # ds, Some (set_fields to_set d))
      else (case find_one_and_update ds flt to_set of (ds', r) \<Rightarrow> (d # ds', r)))"

text \<open>\<^verbatim>\<open>.sort("created_at", 1)\<close>: ascending by the field. Dates are ordered by time; a
  document without a date there (no field, null, a string) comes before every date, as in
  the store's order of types.\<close>

definition created_at_key :: "doc \<Rightarrow> nat" where
  "created_at_key d = (case map_of d ''created_at'' of Some (VDatetime t) \<Rightarrow> Suc t | _ \<Rightarrow> 0)"

definition sort_created_at :: "doc list \<Rightarrow> doc list" where
  "sort_created_at ds = sort_key created_at_key ds"

section \<open>The store adapter\<close>

text \<open>
  Modelled from the spec: \<^verbatim>\<open>create_document\<close> of the module \<^verbatim>\<open>database\<close>, which is not
  among the source files. Spec 4.1: it "inserts a new record, stamping created_at and
  updated_at with the current UTC time; returns the generated identifier as a string. Fails
  with StoreUnavailable if no live connection exists." The clock's reading \<open>now\<close> and the
  identifier \<open>oid\<close> that the store generates are inputs.
\<close>

definition create_document ::
  "nat \<Rightarrow> objectid \<Rightarrow> string \<Rightarrow> doc \<Rightarrow> database option \<Rightarrow> (py_error + string) \<times> database option" where
  "create_document now oid collection_name data s =
     (case s of
        None \<Rightarrow> (Inl StoreUnavailable, s)
      | Some db \<Rightarrow>
          (let data_dict = AList.update ''updated_at'' (VDatetime now)
                             (AList.update ''created_at'' (VDatetime now) data)
           in (Inr (str_oid oid),
               Some (db(collection_name :=
                          db collection_name @ [(''_id'', VObjectId oid) # data_dict])))))"

text \<open>
  Modelled from the spec: \<^verbatim>\<open>get_documents\<close> of the module \<^verbatim>\<open>database\<close>, which is not
  among the source files. Spec 4.1: it "returns all matching records, unfiltered fields
  ignored; equality filtering only", and the "order is insertion order"; spec 7: a store
  that is not reachable is a server error.
\<close>

definition get_documents :: "string \<Rightarrow> doc \<Rightarrow> database option \<Rightarrow> py_error + doc list" where
  "get_documents collection_name filter_dict s =
     (case s of
        None \<Rightarrow> Inl StoreUnavailable
      | Some db \<Rightarrow> Inr (find_coll (db collection_name) filter_dict))"

section \<open>The schemas\<close>

text \<open>A request body is the dictionary that the JSON parser returns. A string is a list of
  characters, and \<open>length\<close> is Python's \<^verbatim>\<open>len\<close>.\<close>

datatype json = JNull | JBool bool | JNum int | JStr string
  | JArr "json list" | JObj "(string \<times> json) list"

definition Priority :: "string list" where
  "Priority = [''low'', ''medium'', ''high'', ''urgent'']"

definition Status :: "string list" where
  "Status = [''open'', ''in_progress'', ''resolved'', ''closed'']"

record Ticket =
  title :: string
  description :: string
  requester_email :: string
  category :: string
  priority :: string
  status :: string
  assignee :: "string option"

text \<open>The validators of the field types. \<open>None\<close> is a validation error. \<^verbatim>\<open>EmailStr\<close>
  is checked by the function \<open>email\<close>, which returns the address as the model keeps it, or
  \<open>None\<close> for a string that is no address.\<close>

definition v_str :: "json option \<Rightarrow> string option" where
  "v_str j = (case j of Some (JStr x) \<Rightarrow> Some x | _ \<Rightarrow> None)"

definition v_str_len :: "nat \<Rightarrow> nat option \<Rightarrow> json option \<Rightarrow> string option" where
  "v_str_len min_length max_length j =
     (case v_str j of
        None \<Rightarrow> None
      | Some x \<Rightarrow>
          if min_length \<le> length x \<and> (case max_length of None \<Rightarrow> True | Some m \<Rightarrow> length x \<le> m)
          then Some x else None)"

definition v_email :: "(string \<Rightarrow> string option) \<Rightarrow> json option \<Rightarrow> string option" where
  "v_email email j = (case v_str j of None \<Rightarrow> None | Some x \<Rightarrow> email x)"

definition v_literal :: "string list \<Rightarrow> string \<Rightarrow> json option \<Rightarrow> string option" where
  "v_literal allowed deflt j =
     (case j of
        None \<Rightarrow> Some deflt
      | Some (JStr x) \<Rightarrow> if x \<in> set allowed then Some x else None
      | Some _ \<Rightarrow> None)"

definition v_optional_str :: "json option \<Rightarrow> string option option" where
  "v_optional_str j =
     (case j of
        None \<Rightarrow> Some None
      | Some JNull \<Rightarrow> Some None
      | Some (JStr x) \<Rightarrow> Some (Some x)
      | Some _ \<Rightarrow> None)"

definition Ticket_validate ::
  "(string \<Rightarrow> string option) \<Rightarrow> (string \<times> json) list \<Rightarrow> Ticket option" where
  "Ticket_validate email b =
     (case v_str_len 3 (Some 200) (map_of b ''title'') of None \<Rightarrow> None | Some t \<Rightarrow>
      case v_str_len 5 None (map_of b ''description'') of None \<Rightarrow> None | Some d \<Rightarrow>
      case v_email email (map_of b ''requester_email'') of None \<Rightarrow> None | Some e \<Rightarrow>
      case v_str (map_of b ''category'') of None \<Rightarrow> None | Some c \<Rightarrow>
      case v_literal Priority ''medium'' (map_of b ''priority'') of None \<Rightarrow> None | Some p \<Rightarrow>
      case v_literal Status ''open'' (map_of b ''status'') of None \<Rightarrow> None | Some st \<Rightarrow>
      case v_optional_str (map_of b ''assignee'') of None \<Rightarrow> None | Some a \<Rightarrow>
        Some \<lparr>title = t, description = d, requester_email = e, category = c,
              priority = p, status = st, assignee = a\<rparr>)"

definition opt_val :: "string option \<Rightarrow> val" where
  "opt_val x = (case x of None \<Rightarrow> VNone | Some y \<Rightarrow> VStr y)"

definition Ticket_model_dump :: "Ticket \<Rightarrow> doc" where
  "Ticket_model_dump p =
     [(''title'', VStr (title p)), (''description'', VStr (description p)),
      (''requester_email'', VStr (requester_email p)), (''category'', VStr (category p)),
      (''priority'', VStr (priority p)), (''status'', VStr (status p)),
      (''assignee'', opt_val (assignee p))]"

text \<open>\<^verbatim>\<open>TicketUpdate\<close>: every field is optional with the default \<^verbatim>\<open>None\<close>, and the
  model remembers which fields the body has set. A field is \<open>Unset\<close>, or \<open>Set\<close> to
  \<^verbatim>\<open>None\<close> or to a string. The fields have the names of \<^verbatim>\<open>Ticket\<close>; the
  prefix \<open>u_\<close> keeps the two records apart.\<close>

datatype field = Unset | Set "string option"

record TicketUpdate =
  u_title :: field
  u_description :: field
  u_requester_email :: field
  u_category :: field
  u_priority :: field
  u_status :: field
  u_assignee :: field

definition v_opt_field :: "(string \<Rightarrow> string option) \<Rightarrow> json option \<Rightarrow> field option" where
  "v_opt_field check j =
     (case j of
        None \<Rightarrow> Some Unset
      | Some JNull \<Rightarrow> Some (Set None)
      | Some (JStr x) \<Rightarrow> (case check x of None \<Rightarrow> None | Some y \<Rightarrow> Some (Set (Some y)))
      | Some _ \<Rightarrow> None)"

definition in_literal :: "string list \<Rightarrow> string \<Rightarrow> string option" where
  "in_literal allowed x = (if x \<in> set allowed then Some x else None)"

definition TicketUpdate_validate ::
  "(string \<Rightarrow> string option) \<Rightarrow> (string \<times> json) list \<Rightarrow> TicketUpdate option" where
  "TicketUpdate_validate email b =
     (case v_opt_field Some (map_of b ''title'') of None \<Rightarrow> None | Some t \<Rightarrow>
      case v_opt_field Some (map_of b ''description'') of None \<Rightarrow> None | Some d \<Rightarrow>
      case v_opt_field email (map_of b ''requester_email'') of None \<Rightarrow> None | Some e \<Rightarrow>
      case v_opt_field Some (map_of b ''category'') of None \<Rightarrow> None | Some c \<Rightarrow>
      case v_opt_field (in_literal Priority) (map_of b ''priority'') of None \<Rightarrow> None | Some p \<Rightarrow>
      case v_opt_field (in_literal Status) (map_of b ''status'') of None \<Rightarrow> None | Some st \<Rightarrow>
      case v_opt_field Some (map_of b ''assignee'') of None \<Rightarrow> None | Some a \<Rightarrow>
        Some \<lparr>u_title = t, u_description = d, u_requester_email = e, u_category = c,
              u_priority = p, u_status = st, u_assignee = a\<rparr>)"

definition dump_field :: "string \<Rightarrow> field \<Rightarrow> doc" where
  "dump_field k f = (case f of Unset \<Rightarrow> [] | Set v \<Rightarrow> [(k, opt_val v)])"

text \<open>\<^verbatim>\<open>model_dump(exclude_unset=True)\<close>: the fields that were set, in the order of the
  class.\<close>

definition model_dump_exclude_unset :: "TicketUpdate \<Rightarrow> doc" where
  "model_dump_exclude_unset u =
     dump_field ''title'' (u_title u) @ dump_field ''description'' (u_description u) @
     dump_field ''requester_email'' (u_requester_email u) @
     dump_field ''category'' (u_category u) @ dump_field ''priority'' (u_priority u) @
     dump_field ''status'' (u_status u) @ dump_field ''assignee'' (u_assignee u)"

record Comment =
  ticket_id :: string
  author :: string
  body :: string

definition Comment_validate :: "(string \<times> json) list \<Rightarrow> Comment option" where
  "Comment_validate b =
     (case v_str (map_of b ''ticket_id'') of None \<Rightarrow> None | Some t \<Rightarrow>
      case v_str (map_of b ''author'') of None \<Rightarrow> None | Some a \<Rightarrow>
      case v_str_len 1 None (map_of b ''body'') of None \<Rightarrow> None | Some x \<Rightarrow>
        Some \<lparr>ticket_id = t, author = a, body = x\<rparr>)"

definition Comment_model_dump :: "Comment \<Rightarrow> doc" where
  "Comment_model_dump c =
     [(''ticket_id'', VStr (ticket_id c)), (''author'', VStr (author c)),
      (''body'', VStr (body c))]"

section \<open>The request handlers\<close>

text \<open>
  Each handler that returns a document ends with the same statements:
  \<^verbatim>\<open>d["id"] = str(d.pop("_id"))\<close>, then \<^verbatim>\<open>created_at\<close> and \<^verbatim>\<open>updated_at\<close> are
  replaced by their \<^verbatim>\<open>isoformat()\<close> when they have one.
\<close>

fun py_str :: "val \<Rightarrow> val" where
  "py_str (VObjectId oid) = VStr (str_oid oid)"
| "py_str (VStr x) = VStr x"
| "py_str v = VStrOf v"

definition pop_id :: "doc \<Rightarrow> py_error + doc" where
  "pop_id d =
     (case map_of d ''_id'' of
        None \<Rightarrow> Inl (KeyError ''_id'')
      | Some v \<Rightarrow> Inr (AList.update ''id'' (py_str v) (AList.delete ''_id'' d)))"

definition isoformat_field :: "string \<Rightarrow> doc \<Rightarrow> doc" where
  "isoformat_field k d =
     (case map_of d k of Some (VDatetime t) \<Rightarrow> AList.update k (VIsoformat t) d | _ \<Rightarrow> d)"

definition to_out :: "doc \<Rightarrow> py_error + doc" where
  "to_out d =
     (case pop_id d of
        Inl e \<Rightarrow> Inl e
      | Inr d' \<Rightarrow> Inr (isoformat_field ''updated_at'' (isoformat_field ''created_at'' d')))"

text \<open>The loop \<^verbatim>\<open>for d in docs\<close>: the first exception ends it.\<close>

fun each_out :: "doc list \<Rightarrow> py_error + doc list" where
  "each_out [] = Inr []"
| "each_out (d # ds) =
     (case to_out d of
        Inl e \<Rightarrow> Inl e
      | Inr d' \<Rightarrow> (case each_out ds of Inl e \<Rightarrow> Inl e | Inr ds' \<Rightarrow> Inr (d' # ds')))"

text \<open>In every handler \<^verbatim>\<open>except Exception as e\<close> turns an exception that is no
  \<^verbatim>\<open>HTTPException\<close> into \<^verbatim>\<open>HTTPException(status_code=500, detail=str(e))\<close>; that
  conversion is written at each place where such an exception is raised.\<close>

definition create_ticket ::
  "nat \<Rightarrow> objectid \<Rightarrow> Ticket \<Rightarrow> database option \<Rightarrow> (http_exception + doc) \<times> database option" where
  "create_ticket now oid payload s =
     (case create_document now oid ''ticket'' (Ticket_model_dump payload) s of
        (Inr new_id, s') \<Rightarrow> (Inr [(''id'', VStr new_id)], s')
      | (Inl e, s') \<Rightarrow> (Inl (HTTPException 500 (Str e)), s'))"

text \<open>\<^verbatim>\<open>if status:\<close> holds for a string that is given and not empty.\<close>

definition query_filter :: "string \<Rightarrow> string option \<Rightarrow> doc" where
  "query_filter k q =
     (case q of None \<Rightarrow> [] | Some x \<Rightarrow> if x = [] then [] else [(k, VStr x)])"

definition list_tickets ::
  "string option \<Rightarrow> string option \<Rightarrow> database option \<Rightarrow> http_exception + doc list" where
  "list_tickets status_q priority_q s =
     (let filter_dict = query_filter ''status'' status_q @ query_filter ''priority'' priority_q
      in case get_documents ''ticket'' filter_dict s of
           Inl e \<Rightarrow> Inl (HTTPException 500 (Str e))
         | Inr docs \<Rightarrow>
             (case each_out docs of
                Inl e \<Rightarrow> Inl (HTTPException 500 (Str e))
              | Inr result \<Rightarrow> Inr result))"

definition get_ticket :: "string \<Rightarrow> database option \<Rightarrow> http_exception + doc" where
  "get_ticket tid s =
     (case s of
        None \<Rightarrow> Inl (HTTPException 500 (Str TypeError))
      | Some db \<Rightarrow>
       (case ObjectId tid of
          Inl e \<Rightarrow> Inl (HTTPException 500 (Str e))
        | Inr oid \<Rightarrow>
         (case find_one (db ''ticket'') [(''_id'', VObjectId oid)] of
            None \<Rightarrow> Inl (HTTPException 404 Ticket_not_found)
          | Some doc \<Rightarrow>
              if doc = [] then Inl (HTTPException 404 Ticket_not_found)
              else
               (case to_out doc of
                  Inl e \<Rightarrow> Inl (HTTPException 500 (Str e))
                | Inr doc' \<Rightarrow>
                   (case each_out (sort_created_at
                                     (find_coll (db ''comment'') [(''ticket_id'', VStr tid)])) of
                      Inl e \<Rightarrow> Inl (HTTPException 500 (Str e))
                    | Inr comments \<Rightarrow>
                        Inr (AList.update ''comments'' (VList comments) doc'))))))"

definition update_ticket ::
  "nat \<Rightarrow> string \<Rightarrow> TicketUpdate \<Rightarrow> database option \<Rightarrow> (http_exception + doc) \<times> database option" where
  "update_ticket now tid updates s =
     (let to_set = model_dump_exclude_unset updates in
      if to_set = [] then (Inr [(''id'', VStr tid), (''updated'', VBool False)], s)
      else
       (let to_set' = AList.update ''updated_at'' (VDatetime now) to_set in
        case s of
          None \<Rightarrow> (Inl (HTTPException 500 (Str TypeError)), s)
        | Some db \<Rightarrow>
         (case ObjectId tid of
            Inl e \<Rightarrow> (Inl (HTTPException 500 (Str e)), s)
          | Inr oid \<Rightarrow>
           (case find_one_and_update (db ''ticket'') [(''_id'', VObjectId oid)] to_set' of
              (coll', None) \<Rightarrow>
                (Inl (HTTPException 404 Ticket_not_found), Some (db(''ticket'' := coll')))
            | (coll', Some result) \<Rightarrow>
                if result = []
                then (Inl (HTTPException 404 Ticket_not_found), Some (db(''ticket'' := coll')))
                else
                 (case to_out result of
                    Inl e \<Rightarrow> (Inl (HTTPException 500 (Str e)), Some (db(''ticket'' := coll')))
                  | Inr result' \<Rightarrow> (Inr result', Some (db(''ticket'' := coll'))))))))"

definition add_comment ::
  "nat \<Rightarrow> objectid \<Rightarrow> string \<Rightarrow> Comment \<Rightarrow> database option \<Rightarrow>
     (http_exception + doc) \<times> database option" where
  "add_comment now oid tid payload s =
     (case s of
        None \<Rightarrow> (Inl (HTTPException 500 (Str TypeError)), s)
      | Some db \<Rightarrow>
       (case ObjectId tid of
          Inl e \<Rightarrow> (Inl (HTTPException 500 (Str e)), s)
        | Inr oid' \<Rightarrow>
         (case find_one (db ''ticket'') [(''_id'', VObjectId oid')] of
            None \<Rightarrow> (Inl (HTTPException 404 Ticket_not_found), s)
          | Some doc \<Rightarrow>
              if doc = [] then (Inl (HTTPException 404 Ticket_not_found), s)
              else
               (case create_document now oid ''comment''
                       (AList.update ''ticket_id'' (VStr tid) (Comment_model_dump payload)) s of
                  (Inr comment_id, s') \<Rightarrow> (Inr [(''id'', VStr comment_id)], s')
                | (Inl e, s') \<Rightarrow> (Inl (HTTPException 500 (Str e)), s')))))"

definition list_comments :: "string \<Rightarrow> database option \<Rightarrow> http_exception + doc list" where
  "list_comments tid s =
     (case get_documents ''comment'' [(''ticket_id'', VStr tid)] s of
        Inl e \<Rightarrow> Inl (HTTPException 500 (Str e))
      | Inr comments \<Rightarrow>
          (case each_out comments of
             Inl e \<Rightarrow> Inl (HTTPException 500 (Str e))
           | Inr result \<Rightarrow> Inr result))"

subsection \<open>The routes\<close>

text \<open>The framework validates the body against the schema of the handler's parameter and
  answers 422 without calling the handler when the validation fails.\<close>

definition POST_tickets ::
  "(string \<Rightarrow> string option) \<Rightarrow> nat \<Rightarrow> objectid \<Rightarrow> (string \<times> json) list \<Rightarrow> database option \<Rightarrow>
     (http_exception + doc) \<times> database option" where
  "POST_tickets email now oid b s =
     (case Ticket_validate email b of
        None \<Rightarrow> (Inl (HTTPException 422 Validation_error), s)
      | Some payload \<Rightarrow> create_ticket now oid payload s)"

definition PATCH_ticket ::
  "(string \<Rightarrow> string option) \<Rightarrow> nat \<Rightarrow> string \<Rightarrow> (string \<times> json) list \<Rightarrow> database option \<Rightarrow>
     (http_exception + doc) \<times> database option" where
  "PATCH_ticket email now tid b s =
     (case TicketUpdate_validate email b of
        None \<Rightarrow> (Inl (HTTPException 422 Validation_error), s)
      | Some updates \<Rightarrow> update_ticket now tid updates s)"

definition POST_comments ::
  "nat \<Rightarrow> objectid \<Rightarrow> string \<Rightarrow> (string \<times> json) list \<Rightarrow> database option \<Rightarrow>
     (http_exception + doc) \<times> database option" where
  "POST_comments now oid tid b s =
     (case Comment_validate b of
        None \<Rightarrow> (Inl (HTTPException 422 Validation_error), s)
      | Some payload \<Rightarrow> add_comment now oid tid payload s)"

text \<open>The update that sets no field.\<close>

definition no_updates :: TicketUpdate where
  "no_updates = \<lparr>u_title = Unset, u_description = Unset, u_requester_email = Unset,
     u_category = Unset, u_priority = Unset, u_status = Unset, u_assignee = Unset\<rparr>"

section \<open>Stored documents and example data\<close>

text \<open>The store gives every document it keeps an \<^verbatim>\<open>_id\<close>.\<close>

definition has_id :: "doc \<Rightarrow> bool" where
  "has_id d \<longleftrightarrow> map_of d ''_id'' \<noteq> None"

text \<open>A stand-in for the address check of \<^verbatim>\<open>EmailStr\<close>, and a small store, for the
  examples below.\<close>

definition at_sign_email :: "string \<Rightarrow> string option" where
  "at_sign_email x = (if CHR ''@'' \<in> set x then Some x else None)"

definition id_a :: string where "id_a = ''aaaaaaaaaaaaaaaaaaaaaaaa''"
definition id_b :: string where "id_b = ''bbbbbbbbbbbbbbbbbbbbbbbb''"

definition ticket_a :: doc where
  "ticket_a =
     [(''_id'', VObjectId (Oid id_a)), (''title'', VStr ''Printer jam''),
      (''description'', VStr ''Tray two jams''), (''requester_email'', VStr ''ann@example.org''),
      (''category'', VStr ''Hardware''), (''priority'', VStr ''high''),
      (''status'', VStr ''open''), (''assignee'', VNone),
      (''created_at'', VDatetime 1), (''updated_at'', VDatetime 1)]"

definition ticket_b :: doc where
  "ticket_b =
     [(''_id'', VObjectId (Oid id_b)), (''title'', VStr ''No network''),
      (''description'', VStr ''Cable unplugged''), (''requester_email'', VStr ''bob@example.org''),
      (''category'', VStr ''Network''), (''priority'', VStr ''low''),
      (''status'', VStr ''open''), (''assignee'', VStr ''carol''),
      (''created_at'', VDatetime 2), (''updated_at'', VDatetime 2)]"

definition comment_of :: "string \<Rightarrow> string \<Rightarrow> nat \<Rightarrow> doc" where
  "comment_of cid tid t =
     [(''_id'', VObjectId (Oid cid)), (''ticket_id'', VStr tid), (''author'', VStr ''dan''),
      (''body'', VStr ''seen''), (''created_at'', VDatetime t), (''updated_at'', VDatetime t)]"

definition example_db :: database where
  "example_db = no_documents
     (''ticket'' := [ticket_a, ticket_b],
      ''comment'' := [comment_of ''c1'' id_a 5, comment_of ''c2'' id_a 3,
                      comment_of ''c3'' id_b 4, comment_of ''c4'' id_a 4])"

definition id_c :: string where "id_c = ''cccccccccccccccccccccccc''"

definition ticket_body :: "(string \<times> json) list" where
  "ticket_body =
     [(''title'', JStr ''Printer jam''), (''description'', JStr ''Tray two jams''),
      (''requester_email'', JStr ''ann@example.org''), (''category'', JStr ''Hardware'')]"

text \<open>A second stand-in for \<^verbatim>\<open>EmailStr\<close>, which also puts the domain of the address
  in lower case, and a body whose address has an upper-case domain.\<close>

definition lower_ascii :: "char \<Rightarrow> char" where
  "lower_ascii c =
     (case map_of (zip ''ABCDEFGHIJKLMNOPQRSTUVWXYZ'' ''abcdefghijklmnopqrstuvwxyz'') c of
        None \<Rightarrow> c
      | Some l \<Rightarrow> l)"

definition lower_domain_email :: "string \<Rightarrow> string option" where
  "lower_domain_email x =
     (let local_part = takeWhile (\<lambda>c. c \<noteq> CHR ''@'') x;
          domain = drop (Suc (length local_part)) x
      in if local_part \<noteq> [] \<and> length local_part < length x \<and> CHR ''@'' \<notin> set domain \<and>
            CHR ''.'' \<in> set domain
         then Some (local_part @ ''@'' @ map lower_ascii domain)
         else None)"

definition upper_body :: "(string \<times> json) list" where
  "upper_body =
     [(''title'', JStr ''Printer jam''), (''description'', JStr ''Tray two jams''),
      (''requester_email'', JStr ''Ann@EXAMPLE.ORG''), (''category'', JStr ''Hardware''),
      (''priority'', JStr ''urgent''), (''assignee'', JStr ''carol'')]"

text \<open>A string of 24 characters that \<^verbatim>\<open>bytes.fromhex\<close> decodes to eight bytes.\<close>

definition id_spaced :: string where "id_spaced = ''aa aa aa aa aa aa aa aa ''"

section \<open>Runs of the service\<close>

text \<open>The requests that write to the store, each with the reading of the clock when it
  is served (and, for a creation, the identifier the store generates). A run serves a list
  of requests one after the other.\<close>

datatype request =
    Post_tickets nat objectid "(string \<times> json) list"
  | Patch_ticket nat string "(string \<times> json) list"
  | Post_comments nat objectid string "(string \<times> json) list"

fun clock :: "request \<Rightarrow> nat" where
  "clock (Post_tickets now oid b) = now"
| "clock (Patch_ticket now tid b) = now"
| "clock (Post_comments now oid tid b) = now"

fun serve :: "(string \<Rightarrow> string option) \<Rightarrow> request \<Rightarrow> database option \<Rightarrow> database option" where
  "serve email (Post_tickets now oid b) s = snd (POST_tickets email now oid b s)"
| "serve email (Patch_ticket now tid b) s = snd (PATCH_ticket email now tid b s)"
| "serve email (Post_comments now oid tid b) s = snd (POST_comments now oid tid b s)"

definition run :: "(string \<Rightarrow> string option) \<Rightarrow> request list \<Rightarrow> database option \<Rightarrow> database option" where
  "run email rs s = fold (serve email) rs s"

text \<open>A ticket is stamped by \<open>n\<close> when its \<^verbatim>\<open>updated_at\<close> is a date not after \<open>n\<close>.\<close>

definition stamped :: "nat \<Rightarrow> doc \<Rightarrow> bool" where
  "stamped n d \<longleftrightarrow>
     (case map_of d ''updated_at'' of Some (VDatetime t) \<Rightarrow> t \<le> n | _ \<Rightarrow> False)"

definition store_ok :: "nat \<Rightarrow> database \<Rightarrow> bool" where
  "store_ok n db \<longleftrightarrow>
     list_all (\<lambda>d. has_id d \<and> stamped n d) (db ''ticket'') \<and> list_all has_id (db ''comment'')"

section \<open>Properties\<close>

subsection \<open>Auxiliary facts\<close>

lemma lower_hex_id: "c \<in> set ''0123456789abcdef'' \<Longrightarrow> lower_hex c = c"
  by (auto simp: lower_hex_def)

lemma lower_is_hexdigit: "c \<in> set ''0123456789abcdef'' \<Longrightarrow> c \<in> set hexdigits"
  by (auto simp: hexdigits_def)

lemma lower_no_space: "c \<in> set ''0123456789abcdef'' \<Longrightarrow> \<not> isspace c"
  by (auto simp: isspace_def)

lemma fromhex_lower:
  "list_all (\<lambda>c. c \<in> set ''0123456789abcdef'') xs \<Longrightarrow> even (length xs) \<Longrightarrow>
     fromhex xs = Some xs"
proof (induction xs rule: fromhex.induct)
  case 1
  then show ?case by simp
next
  case (2 c)
  then show ?case by simp
next
  case (3 c d cs)
  from "3.prems" have c: "c \<in> set ''0123456789abcdef''" and d: "d \<in> set ''0123456789abcdef''"
    and cs: "list_all (\<lambda>c. c \<in> set ''0123456789abcdef'') cs" "even (length cs)"
    by simp_all
  have "fromhex cs = Some cs"
    using "3.IH"(2) cs lower_no_space [OF c] lower_is_hexdigit [OF c] lower_is_hexdigit [OF d]
    by simp
  then show ?case
    using lower_no_space [OF c] lower_is_hexdigit [OF c] lower_is_hexdigit [OF d]
      lower_hex_id [OF c] lower_hex_id [OF d]
    by simp
qed

lemma ObjectId_str_oid: "generated_oid oid \<Longrightarrow> ObjectId (str_oid oid) = Inr oid"
  by (simp add: generated_oid_def ObjectId_def fromhex_lower)

lemma matches_single: "matches [(k, v)] d \<longleftrightarrow> map_of d k = Some v"
  by (simp add: matches_def)

lemma find_one_None_iff: "find_one coll flt = None \<longleftrightarrow> (\<forall>d \<in> set coll. \<not> matches flt d)"
  by (auto simp: find_one_def find_coll_def filter_empty_conv filter_eq_Cons_iff
      split: list.splits)

lemma find_one_SomeD: "find_one coll flt = Some d \<Longrightarrow> d \<in> set coll \<and> matches flt d"
  by (auto simp: find_one_def find_coll_def filter_eq_Cons_iff split: list.splits)

lemma matches_nonempty: "matches [(k, v)] d \<Longrightarrow> d \<noteq> []"
  by (auto simp: matches_def)

lemma no_fields_validate:
  assumes "\<forall>k \<in> set [''title'', ''description'', ''requester_email'', ''category'',
                      ''priority'', ''status'', ''assignee'']. map_of b k = None"
  shows "TicketUpdate_validate email b = Some no_updates"
  using assms by (simp add: TicketUpdate_validate_def v_opt_field_def no_updates_def)

lemma to_out_has_id: "has_id d \<Longrightarrow> \<exists>r. to_out d = Inr r"
  by (auto simp: has_id_def to_out_def pop_id_def)

lemma each_out_Inr_iff: "each_out ds = Inr rs \<longleftrightarrow> list_all2 (\<lambda>d r. to_out d = Inr r) ds rs"
proof (induction ds arbitrary: rs)
  case Nil
  then show ?case by auto
next
  case (Cons d ds)
  show ?case
  proof (cases rs)
    case Nil
    then show ?thesis by (simp split: sum.splits)
  next
    case (Cons r rs')
    then show ?thesis
      by (auto simp: Cons.IH [symmetric] split: sum.splits)
  qed
qed

lemma each_out_total: "list_all has_id ds \<Longrightarrow> \<exists>rs. each_out ds = Inr rs"
proof (induction ds)
  case Nil
  then show ?case by simp
next
  case (Cons d ds)
  from Cons.prems have "has_id d" by simp
  then obtain r where r: "to_out d = Inr r"
    using to_out_has_id by blast
  from Cons obtain rs where rs: "each_out ds = Inr rs" by auto
  from r rs show ?case by simp
qed

lemma list_all_sort_created_at: "list_all P (sort_created_at ds) = list_all P ds"
  by (simp add: sort_created_at_def list_all_iff)

lemma list_all_find_coll: "list_all P ds \<Longrightarrow> list_all P (find_coll ds flt)"
  by (simp add: find_coll_def list_all_iff)

lemma find_coll_single:
  "find_coll ds [(k, v)] = filter (\<lambda>d. map_of d k = Some v) ds"
  unfolding find_coll_def by (rule filter_cong) (simp_all add: matches_def)

lemma find_one_append_new:
  assumes "\<forall>d \<in> set coll. \<not> matches flt d" and "matches flt x"
  shows "find_one (coll @ [x]) flt = Some x"
proof -
  have "filter (matches flt) coll = []"
    using assms(1) by (simp add: filter_empty_conv)
  then show ?thesis
    using assms(2) by (simp add: find_one_def find_coll_def)
qed

lemma Ticket_validate_fields:
  assumes "Ticket_validate email b = Some p"
  shows "v_str_len 3 (Some 200) (map_of b ''title'') = Some (title p)"
    and "v_str_len 5 None (map_of b ''description'') = Some (description p)"
    and "v_email email (map_of b ''requester_email'') = Some (requester_email p)"
    and "v_str (map_of b ''category'') = Some (category p)"
    and "v_literal Priority ''medium'' (map_of b ''priority'') = Some (priority p)"
    and "v_literal Status ''open'' (map_of b ''status'') = Some (status p)"
    and "v_optional_str (map_of b ''assignee'') = Some (assignee p)"
  using assms unfolding Ticket_validate_def
  by (auto split: option.splits)

lemma v_strD: "v_str j = Some x \<Longrightarrow> j = Some (JStr x)"
  by (auto simp: v_str_def split: option.splits json.splits)

lemma v_str_lenD:
  "v_str_len lo hi j = Some x \<Longrightarrow>
     j = Some (JStr x) \<and> lo \<le> length x \<and> (\<forall>m. hi = Some m \<longrightarrow> length x \<le> m)"
  by (auto simp: v_str_len_def dest: v_strD split: option.splits if_splits)

lemma v_emailD: "v_email email j = Some e \<Longrightarrow> \<exists>x. j = Some (JStr x) \<and> email x = Some e"
  by (auto simp: v_email_def dest: v_strD split: option.splits)

lemma v_literalD:
  "v_literal allowed deflt j = Some x \<Longrightarrow>
     j = None \<and> x = deflt \<or> j = Some (JStr x) \<and> x \<in> set allowed"
  by (auto simp: v_literal_def split: option.splits json.splits if_splits)

lemma v_optional_strD:
  "v_optional_str j = Some a \<Longrightarrow>
     (j = None \<or> j = Some JNull) \<and> a = None \<or> (\<exists>x. j = Some (JStr x) \<and> a = Some x)"
  by (auto simp: v_optional_str_def split: option.splits json.splits)

lemma comment_data:
  "AList.update ''ticket_id'' (VStr tid) (Comment_model_dump payload) =
     [(''ticket_id'', VStr tid), (''author'', VStr (author payload)),
      (''body'', VStr (body payload))]"
  by (simp add: Comment_model_dump_def)

lemma comment_data_indep:
  "AList.update ''ticket_id'' (VStr tid) (Comment_model_dump (payload\<lparr>ticket_id := x\<rparr>)) =
   AList.update ''ticket_id'' (VStr tid) (Comment_model_dump payload)"
  by (simp add: Comment_model_dump_def)

lemma generated_id_a: "generated_oid (Oid id_a)"
  by (simp add: generated_oid_def id_a_def)

lemma generated_id_b: "generated_oid (Oid id_b)"
  by (simp add: generated_oid_def id_b_def)

lemma ObjectId_id_a: "ObjectId id_a = Inr (Oid id_a)"
  using ObjectId_str_oid [OF generated_id_a] by simp

lemma ObjectId_id_b: "ObjectId id_b = Inr (Oid id_b)"
  using ObjectId_str_oid [OF generated_id_b] by simp

lemma id_a_neq_b: "id_a \<noteq> id_b" "id_b \<noteq> id_a"
  by (simp_all add: id_a_def id_b_def)

lemma add_comment_example:
  "add_comment 9 (Oid ''c5'') id_a \<lparr>ticket_id = id_b, author = ''eve'', body = ''ok''\<rparr>
     (Some example_db) =
     (Inr [(''id'', VStr ''c5'')],
      Some (example_db(''comment'' := example_db ''comment'' @
        [[(''_id'', VObjectId (Oid ''c5'')), (''ticket_id'', VStr id_a),
          (''author'', VStr ''eve''), (''body'', VStr ''ok''),
          (''created_at'', VDatetime 9), (''updated_at'', VDatetime 9)]])))"
  by (simp add: add_comment_def ObjectId_id_a find_one_def find_coll_def matches_def
      example_db_def ticket_a_def ticket_b_def no_documents_def create_document_def
      Comment_model_dump_def)

lemma new_ticket_doc:
  "(''_id'', VObjectId oid) #
     AList.update ''updated_at'' (VDatetime now)
       (AList.update ''created_at'' (VDatetime now) (Ticket_model_dump p)) =
   [(''_id'', VObjectId oid), (''title'', VStr (title p)),
    (''description'', VStr (description p)), (''requester_email'', VStr (requester_email p)),
    (''category'', VStr (category p)), (''priority'', VStr (priority p)),
    (''status'', VStr (status p)), (''assignee'', opt_val (assignee p)),
    (''created_at'', VDatetime now), (''updated_at'', VDatetime now)]"
  by (simp add: Ticket_model_dump_def)

lemma create_ticket_connected:
  "create_ticket now oid p (Some db) =
     (Inr [(''id'', VStr (str_oid oid))],
      Some (db(''ticket'' := db ''ticket'' @
        [[(''_id'', VObjectId oid), (''title'', VStr (title p)),
          (''description'', VStr (description p)),
          (''requester_email'', VStr (requester_email p)),
          (''category'', VStr (category p)), (''priority'', VStr (priority p)),
          (''status'', VStr (status p)), (''assignee'', opt_val (assignee p)),
          (''created_at'', VDatetime now), (''updated_at'', VDatetime now)]])))"
  by (simp add: create_ticket_def create_document_def new_ticket_doc)

lemma to_out_new_ticket:
  "to_out [(''_id'', VObjectId oid), (''title'', t), (''description'', d),
           (''requester_email'', e), (''category'', c), (''priority'', p),
           (''status'', st), (''assignee'', a),
           (''created_at'', VDatetime now), (''updated_at'', VDatetime now')] =
   Inr [(''title'', t), (''description'', d), (''requester_email'', e), (''category'', c),
        (''priority'', p), (''status'', st), (''assignee'', a),
        (''created_at'', VIsoformat now), (''updated_at'', VIsoformat now'),
        (''id'', VStr (str_oid oid))]"
  by (simp add: to_out_def pop_id_def isoformat_field_def)

lemma comments_out_total:
  assumes "list_all has_id (db ''comment'')"
  shows "\<exists>cs. each_out (sort_created_at (find_coll (db ''comment'') flt)) = Inr cs"
  using assms by (intro each_out_total) (simp add: list_all_sort_created_at list_all_find_coll)

lemma get_ticket_found:
  assumes "ObjectId tid = Inr oid"
      and "find_one (db ''ticket'') [(''_id'', VObjectId oid)] = Some d"
      and "to_out d = Inr r"
      and "each_out (sort_created_at (find_coll (db ''comment'') [(''ticket_id'', VStr tid)])) =
             Inr cs"
  shows "get_ticket tid (Some db) = Inr (AList.update ''comments'' (VList cs) r)"
proof -
  have "d \<noteq> []"
    using find_one_SomeD [OF assms(2)] matches_nonempty by blast
  with assms show ?thesis
    by (simp add: get_ticket_def)
qed

lemma generated_id_c: "generated_oid (Oid id_c)"
  by (simp add: generated_oid_def id_c_def)

lemma ObjectId_id_c: "ObjectId id_c = Inr (Oid id_c)"
  using ObjectId_str_oid [OF generated_id_c] by simp

lemma ticket_body_valid:
  "Ticket_validate at_sign_email ticket_body =
     Some \<lparr>title = ''Printer jam'', description = ''Tray two jams'',
           requester_email = ''ann@example.org'', category = ''Hardware'',
           priority = ''medium'', status = ''open'', assignee = None\<rparr>"
  by (simp add: Ticket_validate_def ticket_body_def v_str_len_def v_str_def v_email_def
      at_sign_email_def v_literal_def v_optional_str_def)

lemma id_c_fresh: "\<forall>d \<in> set (example_db ''ticket''). map_of d ''_id'' \<noteq> Some (VObjectId (Oid id_c))"
  by (simp add: example_db_def ticket_a_def ticket_b_def id_a_def id_b_def id_c_def)

lemma example_comments_have_id: "list_all has_id (example_db ''comment'')"
  by (simp add: example_db_def comment_of_def has_id_def)

lemma find_one_Cons:
  "find_one (x # xs) flt = (if matches flt x then Some x else find_one xs flt)"
  by (simp add: find_one_def find_coll_def)

lemma find_one_and_update_found:
  assumes "find_one coll flt = Some d"
  shows "\<exists>pre post. coll = pre @ d # post \<and> (\<forall>x \<in> set pre. \<not> matches flt x) \<and>
           find_one_and_update coll flt ts =
             (pre @ set_fields ts d # post, Some (set_fields ts d))"
  using assms
proof (induction coll)
  case Nil
  then show ?case by (simp add: find_one_def find_coll_def)
next
  case (Cons x xs)
  show ?case
  proof (cases "matches flt x")
    case True
    with Cons.prems have "x = d" by (simp add: find_one_Cons)
    with True have "x # xs = [] @ d # xs \<and> (\<forall>x \<in> set []. \<not> matches flt x) \<and>
        find_one_and_update (x # xs) flt ts = ([] @ set_fields ts d # xs, Some (set_fields ts d))"
      by simp
    then show ?thesis by blast
  next
    case False
    with Cons.prems have "find_one xs flt = Some d" by (simp add: find_one_Cons)
    from Cons.IH [OF this] obtain pre post where
      "xs = pre @ d # post" "\<forall>x \<in> set pre. \<not> matches flt x"
      "find_one_and_update xs flt ts = (pre @ set_fields ts d # post, Some (set_fields ts d))"
      by blast
    with False have "x # xs = (x # pre) @ d # post \<and> (\<forall>y \<in> set (x # pre). \<not> matches flt y) \<and>
        find_one_and_update (x # xs) flt ts =
          ((x # pre) @ set_fields ts d # post, Some (set_fields ts d))"
      by simp
    then show ?thesis by blast
  qed
qed

lemma find_one_and_update_none:
  "find_one coll flt = None \<Longrightarrow> find_one_and_update coll flt ts = (coll, None)"
  by (induction coll) (simp_all add: find_one_Cons split: if_splits)

lemma find_one_first:
  assumes "\<forall>x \<in> set pre. \<not> matches flt x" and "matches flt d"
  shows "find_one (pre @ d # post) flt = Some d"
  using assms by (induction pre) (simp_all add: find_one_Cons)

lemma resolved_body_valid:
  "TicketUpdate_validate email [(''status'', JStr ''resolved'')] =
     Some (no_updates\<lparr>u_status := Set (Some ''resolved'')\<rparr>)"
  by (simp add: TicketUpdate_validate_def v_opt_field_def no_updates_def in_literal_def
      Status_def)

lemma resolved_to_set:
  "model_dump_exclude_unset (no_updates\<lparr>u_status := Set (Some ''resolved'')\<rparr>) =
     [(''status'', VStr ''resolved'')]"
  by (simp add: model_dump_exclude_unset_def dump_field_def no_updates_def opt_val_def)

lemma map_of_resolved:
  "map_of (set_fields [(''status'', VStr ''resolved''), (''updated_at'', VDatetime now)] d) =
     (map_of d)(''status'' \<mapsto> VStr ''resolved'', ''updated_at'' \<mapsto> VDatetime now)"
  by (simp add: set_fields_def update_conv')

lemma find_ticket_b: "find_one (example_db ''ticket'') [(''_id'', VObjectId (Oid id_b))] = Some ticket_b"
  by (simp add: find_one_def find_coll_def matches_def example_db_def ticket_a_def ticket_b_def
      id_a_def id_b_def)

lemma find_ticket_a: "find_one (example_db ''ticket'') [(''_id'', VObjectId (Oid id_a))] = Some ticket_a"
  by (simp add: find_one_def find_coll_def matches_def example_db_def ticket_a_def)

lemma map_of_isoformat_field:
  "k' \<noteq> k \<Longrightarrow> map_of (isoformat_field k d) k' = map_of d k'"
  by (simp add: isoformat_field_def update_conv' split: option.splits val.splits)

lemma to_out_keeps:
  assumes "to_out d = Inr r"
      and "k \<noteq> ''_id''" "k \<noteq> ''id''" "k \<noteq> ''created_at''" "k \<noteq> ''updated_at''"
  shows "map_of r k = map_of d k"
  using assms
  by (auto simp: to_out_def pop_id_def map_of_isoformat_field update_conv' delete_conv'
      split: option.splits)

lemma to_out_id:
  assumes "to_out d = Inr r" and "map_of d ''_id'' = Some (VObjectId oid)"
  shows "map_of r ''id'' = Some (VStr (str_oid oid))"
  using assms
  by (auto simp: to_out_def pop_id_def map_of_isoformat_field update_conv' split: option.splits)

lemma list_all2_rightD:
  "list_all2 P xs ys \<Longrightarrow> y \<in> set ys \<Longrightarrow> \<exists>x \<in> set xs. P x y"
  by (induction rule: list_all2_induct) auto

lemma matches_append: "matches (f @ g) d \<longleftrightarrow> matches f d \<and> matches g d"
  by (simp add: matches_def)

lemma matches_query_filter:
  "matches (query_filter k q) d \<longleftrightarrow>
     (case q of None \<Rightarrow> True | Some x \<Rightarrow> x = [] \<or> map_of d k = Some (VStr x))"
  by (simp add: query_filter_def matches_def split: option.splits)

lemma list_tickets_connected:
  assumes "list_all has_id (db ''ticket'')"
  shows "\<exists>result. list_tickets sq pq (Some db) = Inr result \<and>
           list_all2 (\<lambda>d r. to_out d = Inr r)
             (filter (\<lambda>d. matches (query_filter ''status'' sq) d \<and>
                          matches (query_filter ''priority'' pq) d) (db ''ticket'')) result"
proof -
  let ?flt = "query_filter ''status'' sq @ query_filter ''priority'' pq"
  have sel: "find_coll (db ''ticket'') ?flt =
      filter (\<lambda>d. matches (query_filter ''status'' sq) d \<and>
                   matches (query_filter ''priority'' pq) d) (db ''ticket'')"
    unfolding find_coll_def by (rule filter_cong) (simp_all add: matches_append)
  have "list_all has_id (find_coll (db ''ticket'') ?flt)"
    using assms by (rule list_all_find_coll)
  then obtain result where result: "each_out (find_coll (db ''ticket'') ?flt) = Inr result"
    using each_out_total by blast
  then have "list_tickets sq pq (Some db) = Inr result"
    by (simp add: list_tickets_def get_documents_def)
  moreover have "list_all2 (\<lambda>d r. to_out d = Inr r) (find_coll (db ''ticket'') ?flt) result"
    using result by (simp add: each_out_Inr_iff)
  ultimately show ?thesis
    unfolding sel by blast
qed

lemma filter_key_distinct:
  "distinct (map f xs) \<Longrightarrow> k \<in> set xs \<Longrightarrow> filter (\<lambda>x. f k = f x) xs = [k]"
proof (induction xs)
  case Nil
  then show ?case by simp
next
  case (Cons a xs)
  show ?case
  proof (cases "k = a")
    case True
    with Cons.prems have "filter (\<lambda>x. f a = f x) xs = []"
      by (auto simp: filter_empty_conv)
    with True show ?thesis by simp
  next
    case False
    with Cons.prems have k: "k \<in> set xs" and "f a \<notin> f ` set xs"
      by auto
    then have "f k \<noteq> f a"
      by (metis imageI)
    with Cons k show ?thesis by simp
  qed
qed

lemma sort_key_perm:
  assumes "mset xs = mset ys" and "distinct (map f xs)"
  shows "sort_key f xs = sort_key f ys"
proof (rule properties_for_sort_key)
  show "mset (sort_key f ys) = mset xs"
    using assms(1) by simp
  show "sorted (map f (sort_key f ys))"
    by simp
  have "mset (map f (sort_key f ys)) = mset (map f xs)"
    using assms(1) by simp
  then have d: "distinct (map f (sort_key f ys))"
    using assms(2) mset_eq_imp_distinct_iff by blast
  fix k
  assume k: "k \<in> set (sort_key f ys)"
  then have "k \<in> set xs"
    using assms(1) mset_eq_setD by fastforce
  then have "filter (\<lambda>x. f k = f x) xs = [k]"
    using assms(2) by (rule filter_key_distinct [rotated])
  moreover have "filter (\<lambda>x. f k = f x) (sort_key f ys) = [k]"
    using d k by (rule filter_key_distinct)
  ultimately show "filter (\<lambda>x. f k = f x) (sort_key f ys) = filter (\<lambda>x. f k = f x) xs"
    by simp
qed

lemma example_tickets_have_id: "list_all has_id (example_db ''ticket'')"
  by (simp add: example_db_def ticket_a_def ticket_b_def has_id_def)

lemma example_open_high:
  "filter (\<lambda>d. map_of d ''status'' = Some (VStr ''open'') \<and>
               map_of d ''priority'' = Some (VStr ''high'')) (example_db ''ticket'') = [ticket_a]"
  by (simp add: example_db_def ticket_a_def ticket_b_def)

lemma example_comments_of_a:
  "filter (\<lambda>c. map_of c ''ticket_id'' = Some (VStr id_a)) (example_db ''comment'') =
     [comment_of ''c1'' id_a 5, comment_of ''c2'' id_a 3, comment_of ''c4'' id_a 4]"
  by (simp add: example_db_def comment_of_def id_a_def id_b_def)

lemma get_ticket_a:
  "get_ticket id_a (Some example_db) =
     Inr [(''title'', VStr ''Printer jam''),
      (''description'', VStr ''Tray two jams''), (''requester_email'', VStr ''ann@example.org''),
      (''category'', VStr ''Hardware''), (''priority'', VStr ''high''),
      (''status'', VStr ''open''), (''assignee'', VNone),
      (''created_at'', VIsoformat 1), (''updated_at'', VIsoformat 1), (''id'', VStr id_a),
      (''comments'', VList
        [[(''ticket_id'', VStr id_a), (''author'', VStr ''dan''), (''body'', VStr ''seen''),
          (''created_at'', VIsoformat 3), (''updated_at'', VIsoformat 3), (''id'', VStr ''c2'')],
         [(''ticket_id'', VStr id_a), (''author'', VStr ''dan''), (''body'', VStr ''seen''),
          (''created_at'', VIsoformat 4), (''updated_at'', VIsoformat 4), (''id'', VStr ''c4'')],
         [(''ticket_id'', VStr id_a), (''author'', VStr ''dan''), (''body'', VStr ''seen''),
          (''created_at'', VIsoformat 5), (''updated_at'', VIsoformat 5), (''id'', VStr ''c1'')]])]"
proof -
  have out: "to_out ticket_a = Inr [(''title'', VStr ''Printer jam''),
      (''description'', VStr ''Tray two jams''), (''requester_email'', VStr ''ann@example.org''),
      (''category'', VStr ''Hardware''), (''priority'', VStr ''high''),
      (''status'', VStr ''open''), (''assignee'', VNone),
      (''created_at'', VIsoformat 1), (''updated_at'', VIsoformat 1), (''id'', VStr id_a)]"
    unfolding ticket_a_def by (simp add: to_out_new_ticket)
  have sorted: "sort_created_at (find_coll (example_db ''comment'') [(''ticket_id'', VStr id_a)]) =
      [comment_of ''c2'' id_a 3, comment_of ''c4'' id_a 4, comment_of ''c1'' id_a 5]"
    unfolding find_coll_single example_comments_of_a
    by (simp add: sort_created_at_def created_at_key_def comment_of_def)
  have cs: "each_out [comment_of ''c2'' id_a 3, comment_of ''c4'' id_a 4, comment_of ''c1'' id_a 5] =
     Inr [[(''ticket_id'', VStr id_a), (''author'', VStr ''dan''), (''body'', VStr ''seen''),
          (''created_at'', VIsoformat 3), (''updated_at'', VIsoformat 3), (''id'', VStr ''c2'')],
         [(''ticket_id'', VStr id_a), (''author'', VStr ''dan''), (''body'', VStr ''seen''),
          (''created_at'', VIsoformat 4), (''updated_at'', VIsoformat 4), (''id'', VStr ''c4'')],
         [(''ticket_id'', VStr id_a), (''author'', VStr ''dan''), (''body'', VStr ''seen''),
          (''created_at'', VIsoformat 5), (''updated_at'', VIsoformat 5), (''id'', VStr ''c1'')]]"
    by (simp add: comment_of_def to_out_def pop_id_def isoformat_field_def)
  note cs' = cs [folded sorted]
  show ?thesis
    using get_ticket_found [where db = example_db, OF ObjectId_id_a find_ticket_a out cs']
    by simp
qed

lemma ObjectId_42: "ObjectId ''42'' = Inl (InvalidId ''42'')"
  by (simp add: ObjectId_def)

lemma comment_body_valid:
  "Comment_validate [(''ticket_id'', JStr ''42''), (''author'', JStr ''eve''), (''body'', JStr ''ok'')] =
     Some \<lparr>ticket_id = ''42'', author = ''eve'', body = ''ok''\<rparr>"
  by (simp add: Comment_validate_def v_str_def v_str_len_def)

lemma title_body_valid:
  "TicketUpdate_validate at_sign_email [(''title'', JStr ''New title'')] =
     Some (no_updates\<lparr>u_title := Set (Some ''New title'')\<rparr>)"
  by (simp add: TicketUpdate_validate_def v_opt_field_def no_updates_def)

lemma critical_body_invalid:
  "TicketUpdate_validate at_sign_email [(''priority'', JStr ''critical'')] = None"
  by (simp add: TicketUpdate_validate_def v_opt_field_def in_literal_def Priority_def)

lemma ObjectId_spaced: "ObjectId id_spaced = Inr (Oid ''aaaaaaaaaaaaaaaa'')"
  by (simp add: ObjectId_def id_spaced_def isspace_def hexdigits_def lower_hex_def)

lemma white_space_id_not_found:
  "get_ticket id_spaced (Some example_db) = Inl (HTTPException 404 Ticket_not_found)"
  by (simp add: get_ticket_def ObjectId_spaced find_one_def find_coll_def matches_def
      example_db_def ticket_a_def ticket_b_def id_a_def id_b_def)

lemma lower_domain_example: "lower_domain_email ''Ann@EXAMPLE.ORG'' = Some ''Ann@example.org''"
  by (simp add: lower_domain_email_def lower_ascii_def)

lemma upper_body_valid:
  "Ticket_validate lower_domain_email upper_body =
     Some \<lparr>title = ''Printer jam'', description = ''Tray two jams'',
           requester_email = ''Ann@example.org'', category = ''Hardware'',
           priority = ''urgent'', status = ''open'', assignee = Some ''carol''\<rparr>"
  by (simp add: Ticket_validate_def upper_body_def v_str_len_def v_str_def v_email_def
      lower_domain_example v_literal_def v_optional_str_def Priority_def)

subsection \<open>Runs\<close>

text \<open>In a run whose clock readings do not decrease, every stored document keeps its
  \<^verbatim>\<open>_id\<close> and every ticket has a date as \<^verbatim>\<open>updated_at\<close>, not after the last
  reading. So a request served at a later reading finds every \<^verbatim>\<open>updated_at\<close>
  before its own reading.\<close>

lemma stamped_mono: "stamped n d \<Longrightarrow> n \<le> m \<Longrightarrow> stamped m d"
  by (auto simp: stamped_def split: option.splits val.splits)

lemma store_ok_mono: "store_ok n db \<Longrightarrow> n \<le> m \<Longrightarrow> store_ok m db"
  by (auto simp: store_ok_def list_all_iff intro: stamped_mono)

lemma update_new_key:
  "k \<notin> fst ` set al \<Longrightarrow> AList.update k v al = al @ [(k, v)]"
  by (induction al) auto

lemma map_of_set_fields:
  "map_of (set_fields ts d) = map_of d ++ map_of (rev ts)"
  unfolding set_fields_def
proof (induction ts arbitrary: d)
  case Nil
  then show ?case by simp
next
  case (Cons a ts)
  obtain k v where a: "a = (k, v)" by (cases a)
  have "map_of (fold (\<lambda>(k, v). AList.update k v) ts (AList.update k v d)) =
          map_of (AList.update k v d) ++ map_of (rev ts)"
    by (rule Cons.IH)
  then show ?case
    by (simp add: a update_conv' map_add_def fun_eq_iff split: option.splits)
qed

lemma dump_field_other: "k \<noteq> k' \<Longrightarrow> k \<notin> fst ` set (dump_field k' f)"
  by (cases f) (simp_all add: dump_field_def)

lemma model_dump_other:
  assumes "k \<noteq> ''title''" "k \<noteq> ''description''" "k \<noteq> ''requester_email''"
    "k \<noteq> ''category''" "k \<noteq> ''priority''" "k \<noteq> ''status''" "k \<noteq> ''assignee''"
  shows "k \<notin> fst ` set (model_dump_exclude_unset u)"
  using assms by (simp add: model_dump_exclude_unset_def image_Un dump_field_other)

lemma updated_doc:
  assumes "has_id d"
  shows "has_id (set_fields (AList.update ''updated_at'' (VDatetime now)
                   (model_dump_exclude_unset u)) d) \<and>
         stamped now (set_fields (AList.update ''updated_at'' (VDatetime now)
                   (model_dump_exclude_unset u)) d)"
proof -
  let ?ts = "model_dump_exclude_unset u"
  have keys: "''updated_at'' \<notin> fst ` set ?ts" "''_id'' \<notin> fst ` set ?ts"
    by (simp_all add: model_dump_other)
  then have ts': "AList.update ''updated_at'' (VDatetime now) ?ts =
      ?ts @ [(''updated_at'', VDatetime now)]"
    by (simp add: update_new_key)
  have "map_of (rev ?ts) ''_id'' = None"
    using keys(2) by (simp add: map_of_eq_None_iff)
  then show ?thesis
    using assms
    by (simp add: ts' map_of_set_fields has_id_def stamped_def map_add_def)
qed

lemma find_one_and_update_all:
  assumes "list_all P coll" and "\<And>d. P d \<Longrightarrow> P (set_fields ts d)"
  shows "list_all P (fst (find_one_and_update coll flt ts))"
  using assms(1)
  by (induction coll) (auto simp: assms(2) split: prod.splits)

lemma update_ticket_state:
  "snd (update_ticket now tid u (Some db)) = Some db \<or>
   (\<exists>oid. snd (update_ticket now tid u (Some db)) =
      Some (db(''ticket'' := fst (find_one_and_update (db ''ticket'') [(''_id'', VObjectId oid)]
        (AList.update ''updated_at'' (VDatetime now) (model_dump_exclude_unset u))))))"
proof (cases "model_dump_exclude_unset u = []")
  case True
  then show ?thesis by (simp add: update_ticket_def)
next
  case False
  show ?thesis
  proof (cases "ObjectId tid")
    case (Inl e)
    with False show ?thesis by (simp add: update_ticket_def)
  next
    case (Inr oid)
    obtain coll' r where f: "find_one_and_update (db ''ticket'') [(''_id'', VObjectId oid)]
        (AList.update ''updated_at'' (VDatetime now) (model_dump_exclude_unset u)) = (coll', r)"
      by (cases "find_one_and_update (db ''ticket'') [(''_id'', VObjectId oid)]
        (AList.update ''updated_at'' (VDatetime now) (model_dump_exclude_unset u))")
    have "snd (update_ticket now tid u (Some db)) = Some (db(''ticket'' := coll'))"
      using False Inr f by (simp add: update_ticket_def split: option.splits sum.splits)
    with f show ?thesis
      by (metis fst_conv)
  qed
qed

lemma update_ticket_ok:
  assumes "store_ok n db" and "n \<le> now"
  shows "\<exists>db'. snd (update_ticket now tid u (Some db)) = Some db' \<and> store_ok now db'"
proof -
  let ?ts = "AList.update ''updated_at'' (VDatetime now) (model_dump_exclude_unset u)"
  have ok: "store_ok now db"
    using assms by (rule store_ok_mono)
  have coll: "list_all (\<lambda>d. has_id d \<and> stamped now d)
      (fst (find_one_and_update (db ''ticket'') [(''_id'', VObjectId oid)] ?ts))" for oid
  proof (rule find_one_and_update_all)
    show "list_all (\<lambda>d. has_id d \<and> stamped now d) (db ''ticket'')"
      using ok by (simp add: store_ok_def)
    show "has_id (set_fields ?ts d) \<and> stamped now (set_fields ?ts d)"
      if "has_id d \<and> stamped now d" for d
      using that updated_doc by blast
  qed
  have written: "store_ok now
      (db(''ticket'' := fst (find_one_and_update (db ''ticket'') [(''_id'', VObjectId oid)] ?ts)))"
    for oid
    using ok coll [of oid] by (simp add: store_ok_def)
  from update_ticket_state [of now tid u db] show ?thesis
  proof
    assume "snd (update_ticket now tid u (Some db)) = Some db"
    with ok show ?thesis by blast
  next
    assume "\<exists>oid. snd (update_ticket now tid u (Some db)) =
      Some (db(''ticket'' := fst (find_one_and_update (db ''ticket'') [(''_id'', VObjectId oid)] ?ts)))"
    with written show ?thesis by blast
  qed
qed

lemma comment_needs_ticket_state:
  assumes "ObjectId tid = Inr t"
  shows "snd (add_comment now oid tid payload (Some db)) =
     (if \<exists>d \<in> set (db ''ticket''). map_of d ''_id'' = Some (VObjectId t)
      then Some (db(''comment'' := db ''comment'' @
              [[(''_id'', VObjectId oid), (''ticket_id'', VStr tid),
                (''author'', VStr (author payload)), (''body'', VStr (body payload)),
                (''created_at'', VDatetime now), (''updated_at'', VDatetime now)]]))
      else Some db)"
proof (cases "find_one (db ''ticket'') [(''_id'', VObjectId t)]")
  case None
  then have "\<not> (\<exists>d \<in> set (db ''ticket''). map_of d ''_id'' = Some (VObjectId t))"
    by (simp add: find_one_None_iff matches_single)
  with None assms show ?thesis
    by (simp add: add_comment_def)
next
  case (Some d)
  then have d: "d \<in> set (db ''ticket'')" "map_of d ''_id'' = Some (VObjectId t)" "d \<noteq> []"
    using find_one_SomeD [OF Some] matches_nonempty by (auto simp: matches_single)
  then have "\<exists>d \<in> set (db ''ticket''). map_of d ''_id'' = Some (VObjectId t)"
    by blast
  with Some d assms show ?thesis
    by (simp add: add_comment_def create_document_def Comment_model_dump_def)
qed

lemma add_comment_ok:
  assumes "store_ok now db"
  shows "\<exists>db'. snd (add_comment now oid tid payload (Some db)) = Some db' \<and> store_ok now db'"
proof (cases "ObjectId tid")
  case (Inl e)
  with assms show ?thesis by (simp add: add_comment_def)
next
  case (Inr t)
  show ?thesis
  proof (cases "\<exists>d \<in> set (db ''ticket''). map_of d ''_id'' = Some (VObjectId t)")
    case False
    with assms show ?thesis
      by (simp add: comment_needs_ticket_state [OF Inr])
  next
    case True
    have "has_id [(''_id'', VObjectId oid), (''ticket_id'', VStr tid),
                (''author'', VStr (author payload)), (''body'', VStr (body payload)),
                (''created_at'', VDatetime now), (''updated_at'', VDatetime now)]"
      by (simp add: has_id_def)
    with True assms show ?thesis
      by (simp add: comment_needs_ticket_state [OF Inr] store_ok_def)
  qed
qed

lemma create_ticket_ok:
  assumes "store_ok now db"
  shows "\<exists>db'. snd (create_ticket now oid p (Some db)) = Some db' \<and> store_ok now db'"
proof -
  let ?d = "[(''_id'', VObjectId oid), (''title'', VStr (title p)),
          (''description'', VStr (description p)),
          (''requester_email'', VStr (requester_email p)),
          (''category'', VStr (category p)), (''priority'', VStr (priority p)),
          (''status'', VStr (status p)), (''assignee'', opt_val (assignee p)),
          (''created_at'', VDatetime now), (''updated_at'', VDatetime now)]"
  have "has_id ?d" "stamped now ?d"
    by (simp_all add: has_id_def stamped_def)
  with assms show ?thesis
    by (simp add: create_ticket_connected store_ok_def)
qed

lemma serve_ok:
  assumes "store_ok n db" and "n \<le> clock r"
  shows "\<exists>db'. serve email r (Some db) = Some db' \<and> store_ok (clock r) db'"
proof (cases r)
  case (Post_tickets now oid b)
  have ok: "store_ok now db"
    using assms Post_tickets by (auto intro: store_ok_mono)
  show ?thesis
  proof (cases "Ticket_validate email b")
    case None
    with ok Post_tickets show ?thesis by (simp add: POST_tickets_def)
  next
    case (Some p)
    with create_ticket_ok [OF ok, of oid p] Post_tickets show ?thesis
      by (simp add: POST_tickets_def)
  qed
next
  case (Patch_ticket now tid b)
  have ok: "store_ok now db"
    using assms Patch_ticket by (auto intro: store_ok_mono)
  show ?thesis
  proof (cases "TicketUpdate_validate email b")
    case None
    with ok Patch_ticket show ?thesis by (simp add: PATCH_ticket_def)
  next
    case (Some u)
    with update_ticket_ok [OF ok order_refl, of tid u] Patch_ticket show ?thesis
      by (simp add: PATCH_ticket_def)
  qed
next
  case (Post_comments now oid tid b)
  have ok: "store_ok now db"
    using assms Post_comments by (auto intro: store_ok_mono)
  show ?thesis
  proof (cases "Comment_validate b")
    case None
    with ok Post_comments show ?thesis by (simp add: POST_comments_def)
  next
    case (Some payload)
    with add_comment_ok [OF ok, of oid tid payload] Post_comments show ?thesis
      by (simp add: POST_comments_def)
  qed
qed

lemma run_ok:
  assumes "store_ok n db" and "sorted (n # map clock rs)"
  shows "\<exists>db'. run email rs (Some db) = Some db' \<and> store_ok (last (n # map clock rs)) db'"
  using assms unfolding run_def
proof (induction rs arbitrary: n db)
  case Nil
  then show ?case by simp
next
  case (Cons r rs)
  from Cons.prems have "n \<le> clock r" by simp
  with Cons.prems(1) obtain db1 where
    db1: "serve email r (Some db) = Some db1" "store_ok (clock r) db1"
    using serve_ok by blast
  from Cons.prems(2) have "sorted (clock r # map clock rs)" by simp
  from Cons.IH [OF db1(2) this] db1(1) show ?case
    by simp
qed

lemma store_ok_empty: "store_ok 0 no_documents"
  by (simp add: store_ok_def no_documents_def)

lemma stored_before_later_reading:
  assumes "store_ok n db" and "find_one (db ''ticket'') flt = Some d" and "n < now"
  shows "\<exists>t. map_of d ''updated_at'' = Some (VDatetime t) \<and> t < now"
proof -
  have "d \<in> set (db ''ticket'')"
    using find_one_SomeD [OF assms(2)] by simp
  with assms(1) have "stamped n d"
    by (simp add: store_ok_def list_all_iff)
  with assms(3) show ?thesis
    by (auto simp: stamped_def split: option.splits val.splits)
qed


subsection \<open>The claims\<close>

text \<open>
  C10. An update that sets no field returns \<open>{id, updated: false}\<close> for every identifier
  string and every state of the store, also for a string that is no valid key, for a
  ticket that does not exist and without a connection: the handler returns before it
  parses the identifier or reads the store. The store is as before and the answer is
  never 404.
\<close>

theorem empty_update_any_id:
  "update_ticket now tid no_updates s =
     (Inr [(''id'', VStr tid), (''updated'', VBool False)], s)"
  by (simp add: update_ticket_def model_dump_exclude_unset_def dump_field_def no_updates_def)

text \<open>
  C3. A PATCH whose body has none of the fields of \<^verbatim>\<open>TicketUpdate\<close> returns
  \<open>{id, updated: false}\<close> and writes nothing: the state of the store after the request is
  the state before it, so every stored ticket, its \<^verbatim>\<open>updated_at\<close> included, is as it
  was. This holds for every identifier and every state.
\<close>

theorem empty_patch_no_write:
  assumes "\<forall>k \<in> set [''title'', ''description'', ''requester_email'', ''category'',
                      ''priority'', ''status'', ''assignee'']. map_of b k = None"
  shows "PATCH_ticket email now tid b s =
           (Inr [(''id'', VStr tid), (''updated'', VBool False)], s)"
  using assms
  by (simp add: PATCH_ticket_def TicketUpdate_validate_def v_opt_field_def update_ticket_def
      model_dump_exclude_unset_def dump_field_def)

theorem empty_patch_no_write_witness:
  "PATCH_ticket at_sign_email 9 id_a [(''colour'', JStr ''red'')] (Some example_db) =
     (Inr [(''id'', VStr id_a), (''updated'', VBool False)], Some example_db)"
  using empty_patch_no_write [of "[(''colour'', JStr ''red'')]" at_sign_email 9 id_a
      "Some example_db"]
  by simp



text \<open>
  C9. Whenever POST /api/tickets/{id}/comments creates a comment, the \<^verbatim>\<open>ticket_id\<close>
  of the stored comment is the path parameter, and the \<^verbatim>\<open>ticket_id\<close> of the body has
  no effect: the same request with any other \<^verbatim>\<open>ticket_id\<close> in the body gives the same
  answer and the same store.
\<close>

theorem comment_ticket_id_is_path:
  assumes "add_comment now oid tid payload s = (Inr r, s')"
  shows "\<exists>db c. s = Some db \<and> s' = Some (db(''comment'' := db ''comment'' @ [c])) \<and>
           map_of c ''ticket_id'' = Some (VStr tid) \<and>
           (\<forall>x. add_comment now oid tid (payload\<lparr>ticket_id := x\<rparr>) s = (Inr r, s'))"
proof (cases s)
  case None
  with assms show ?thesis by (simp add: add_comment_def)
next
  case (Some db)
  have indep: "add_comment now oid tid (payload\<lparr>ticket_id := x\<rparr>) s =
                 add_comment now oid tid payload s" for x
    unfolding add_comment_def comment_data_indep by (rule refl)
  from assms Some
  have "s' = Some (db(''comment'' := db ''comment'' @
          [[(''_id'', VObjectId oid), (''ticket_id'', VStr tid),
            (''author'', VStr (author payload)), (''body'', VStr (body payload)),
            (''created_at'', VDatetime now), (''updated_at'', VDatetime now)]]))"
    by (auto simp: add_comment_def comment_data create_document_def
        split: sum.splits option.splits if_splits)
  with Some assms indep show ?thesis
    by auto
qed

theorem comment_ticket_id_is_path_witness:
  "\<exists>c. map_of c ''ticket_id'' = Some (VStr id_a) \<and>
     snd (add_comment 9 (Oid ''c5'') id_a \<lparr>ticket_id = id_b, author = ''eve'', body = ''ok''\<rparr>
       (Some example_db)) = Some (example_db(''comment'' := example_db ''comment'' @ [c])) \<and>
     add_comment 9 (Oid ''c5'') id_a \<lparr>ticket_id = ''zz'', author = ''eve'', body = ''ok''\<rparr>
       (Some example_db) =
     add_comment 9 (Oid ''c5'') id_a \<lparr>ticket_id = id_b, author = ''eve'', body = ''ok''\<rparr>
       (Some example_db)"
proof -
  from comment_ticket_id_is_path [OF add_comment_example]
  obtain db c where c: "Some example_db = Some db"
    "Some (example_db(''comment'' := example_db ''comment'' @
        [[(''_id'', VObjectId (Oid ''c5'')), (''ticket_id'', VStr id_a),
          (''author'', VStr ''eve''), (''body'', VStr ''ok''),
          (''created_at'', VDatetime 9), (''updated_at'', VDatetime 9)]])) =
     Some (db(''comment'' := db ''comment'' @ [c]))"
    "map_of c ''ticket_id'' = Some (VStr id_a)"
    "\<forall>x. add_comment 9 (Oid ''c5'') id_a
            (\<lparr>ticket_id = id_b, author = ''eve'', body = ''ok''\<rparr>\<lparr>ticket_id := x\<rparr>)
            (Some example_db) =
          (Inr [(''id'', VStr ''c5'')],
           Some (example_db(''comment'' := example_db ''comment'' @
        [[(''_id'', VObjectId (Oid ''c5'')), (''ticket_id'', VStr id_a),
          (''author'', VStr ''eve''), (''body'', VStr ''ok''),
          (''created_at'', VDatetime 9), (''updated_at'', VDatetime 9)]])))"
    by blast
  from c(4) have "add_comment 9 (Oid ''c5'') id_a
      \<lparr>ticket_id = ''zz'', author = ''eve'', body = ''ok''\<rparr> (Some example_db) =
     add_comment 9 (Oid ''c5'') id_a \<lparr>ticket_id = id_b, author = ''eve'', body = ''ok''\<rparr>
       (Some example_db)"
    using add_comment_example by (metis Comment.update_convs(1))
  with c(1,2,3) show ?thesis
    using add_comment_example by auto
qed

text \<open>
  C1. The claim: an identifier that \<^verbatim>\<open>ObjectId\<close> does not parse is answered with a
  client error (4xx). The code has no check of the identifier: \<^verbatim>\<open>ObjectId(ticket_id)\<close>
  raises \<^verbatim>\<open>InvalidId\<close>, which is no \<^verbatim>\<open>HTTPException\<close>, and the handler's
  \<^verbatim>\<open>except Exception\<close> turns it into status 500. The claim as amended, for an
  identifier that \<^verbatim>\<open>ObjectId\<close> rejects: GET /api/tickets/{id} answers 500; POST
  /api/tickets/{id}/comments answers 422 when the body fails the schema and 500 otherwise;
  PATCH /api/tickets/{id} answers 422 when the body fails the schema,
  \<open>{id, updated: false}\<close> when it sets no field, and 500 otherwise. The store is unchanged
  in every case.
\<close>

theorem malformed_id_server_error:
  assumes "ObjectId tid = Inl e"
  shows "get_ticket tid s =
           Inl (HTTPException 500 (Str (case s of None \<Rightarrow> TypeError | Some db \<Rightarrow> e))) \<and>
         POST_comments now oid tid b s =
           (if Comment_validate b = None then Inl (HTTPException 422 Validation_error)
            else Inl (HTTPException 500 (Str (case s of None \<Rightarrow> TypeError | Some db \<Rightarrow> e))),
            s) \<and>
         PATCH_ticket email now tid b s =
           (case TicketUpdate_validate email b of
              None \<Rightarrow> Inl (HTTPException 422 Validation_error)
            | Some u \<Rightarrow>
                if model_dump_exclude_unset u = []
                then Inr [(''id'', VStr tid), (''updated'', VBool False)]
                else Inl (HTTPException 500
                            (Str (case s of None \<Rightarrow> TypeError | Some db \<Rightarrow> e))),
            s) \<and>
         server_error 500 \<and> \<not> client_error 500"
proof -
  have get: "get_ticket tid s =
      Inl (HTTPException 500 (Str (case s of None \<Rightarrow> TypeError | Some db \<Rightarrow> e)))"
    using assms by (cases s) (simp_all add: get_ticket_def)
  have add: "add_comment now oid tid payload s =
      (Inl (HTTPException 500 (Str (case s of None \<Rightarrow> TypeError | Some db \<Rightarrow> e))), s)"
    for payload
    using assms by (cases s) (simp_all add: add_comment_def)
  have upd: "update_ticket now tid u s =
      (if model_dump_exclude_unset u = []
       then Inr [(''id'', VStr tid), (''updated'', VBool False)]
       else Inl (HTTPException 500 (Str (case s of None \<Rightarrow> TypeError | Some db \<Rightarrow> e))), s)"
    for u
    using assms by (cases s) (simp_all add: update_ticket_def)
  have post: "POST_comments now oid tid b s =
           (if Comment_validate b = None then Inl (HTTPException 422 Validation_error)
            else Inl (HTTPException 500 (Str (case s of None \<Rightarrow> TypeError | Some db \<Rightarrow> e))),
            s)"
    by (cases "Comment_validate b") (simp_all add: POST_comments_def add)
  have patch: "PATCH_ticket email now tid b s =
           (case TicketUpdate_validate email b of
              None \<Rightarrow> Inl (HTTPException 422 Validation_error)
            | Some u \<Rightarrow>
                if model_dump_exclude_unset u = []
                then Inr [(''id'', VStr tid), (''updated'', VBool False)]
                else Inl (HTTPException 500
                            (Str (case s of None \<Rightarrow> TypeError | Some db \<Rightarrow> e))),
            s)"
    by (cases "TicketUpdate_validate email b") (simp_all add: PATCH_ticket_def upd)
  show ?thesis
    using get post patch by (simp add: server_error_def client_error_def)
qed

theorem malformed_id_server_error_witness:
  "get_ticket ''42'' (Some example_db) = Inl (HTTPException 500 (Str (InvalidId ''42''))) \<and>
   POST_comments 9 (Oid ''c5'') ''42''
     [(''ticket_id'', JStr ''42''), (''author'', JStr ''eve''), (''body'', JStr ''ok'')]
     (Some example_db) = (Inl (HTTPException 500 (Str (InvalidId ''42''))), Some example_db) \<and>
   POST_comments 9 (Oid ''c5'') ''42'' [(''author'', JStr ''eve'')] (Some example_db) =
     (Inl (HTTPException 422 Validation_error), Some example_db) \<and>
   PATCH_ticket at_sign_email 9 ''42'' [(''title'', JStr ''New title'')] (Some example_db) =
     (Inl (HTTPException 500 (Str (InvalidId ''42''))), Some example_db) \<and>
   PATCH_ticket at_sign_email 9 ''42'' [(''priority'', JStr ''critical'')] (Some example_db) =
     (Inl (HTTPException 422 Validation_error), Some example_db)"
proof -
  note h = malformed_id_server_error [OF ObjectId_42, where s = "Some example_db" and now = 9
      and oid = "Oid ''c5''" and email = at_sign_email]
  have "Comment_validate [(''author'', JStr ''eve'')] = None"
    by (simp add: Comment_validate_def v_str_def)
  then show ?thesis
    using h [of "[(''ticket_id'', JStr ''42''), (''author'', JStr ''eve''), (''body'', JStr ''ok'')]"]
      h [of "[(''author'', JStr ''eve'')]"]
      h [of "[(''title'', JStr ''New title'')]"]
      h [of "[(''priority'', JStr ''critical'')]"]
    by (simp add: comment_body_valid title_body_valid critical_body_invalid
        model_dump_exclude_unset_def dump_field_def no_updates_def)
qed

text \<open>The counterexample to C1 as it is stated: the identifier \<open>42\<close> is no valid key, and
  the answer to GET /api/tickets/42 is 500, which is no client error.\<close>

theorem malformed_id_not_client_error:
  "ObjectId ''42'' = Inl (InvalidId ''42'') \<and>
   get_ticket ''42'' (Some no_documents) = Inl (HTTPException 500 (Str (InvalidId ''42''))) \<and>
   \<not> client_error 500"
  by (simp add: ObjectId_def get_ticket_def client_error_def)

text \<open>
  C2. The claim: after POST /api/tickets with a valid body, GET /api/tickets/{id} returns
  every field equal to the input. That fails for \<^verbatim>\<open>requester_email\<close>: its type is
  \<^verbatim>\<open>EmailStr\<close>, and the model keeps the address as the check returns it, which need
  not be the string of the body. The claim as amended, on a connected store whose generated
  identifier is new: POST /api/tickets returns the identifier, and GET /api/tickets/{id}
  with it returns a record whose title, description, category and assignee are those of
  the body (a missing or null assignee is null), whose priority and status are those of
  the body, or \<open>medium\<close> and \<open>open\<close> when the body leaves them out, whose
  \<^verbatim>\<open>requester_email\<close> is the address that the check of \<^verbatim>\<open>EmailStr\<close> returns for
  the one in the body, and whose \<^verbatim>\<open>created_at\<close> and \<^verbatim>\<open>updated_at\<close> are the same
  instant, in the stored document as in the answer.
\<close>

theorem create_then_get:
  assumes valid: "Ticket_validate email b = Some p"
      and gen: "generated_oid oid"
      and fresh: "\<forall>d \<in> set (db ''ticket''). map_of d ''_id'' \<noteq> Some (VObjectId oid)"
      and ids: "list_all has_id (db ''comment'')"
  shows "\<exists>stored doc t d x e c.
      POST_tickets email now oid b (Some db) =
        (Inr [(''id'', VStr (str_oid oid))], Some (db(''ticket'' := db ''ticket'' @ [stored]))) \<and>
      get_ticket (str_oid oid) (Some (db(''ticket'' := db ''ticket'' @ [stored]))) = Inr doc \<and>
      map_of doc ''id'' = Some (VStr (str_oid oid)) \<and>
      map_of b ''title'' = Some (JStr t) \<and> map_of doc ''title'' = Some (VStr t) \<and>
      map_of b ''description'' = Some (JStr d) \<and> map_of doc ''description'' = Some (VStr d) \<and>
      map_of b ''requester_email'' = Some (JStr x) \<and> email x = Some e \<and>
      map_of doc ''requester_email'' = Some (VStr e) \<and>
      map_of b ''category'' = Some (JStr c) \<and> map_of doc ''category'' = Some (VStr c) \<and>
      (map_of b ''priority'' = None \<and> map_of doc ''priority'' = Some (VStr ''medium'') \<or>
       (\<exists>y. map_of b ''priority'' = Some (JStr y) \<and> map_of doc ''priority'' = Some (VStr y))) \<and>
      (map_of b ''status'' = None \<and> map_of doc ''status'' = Some (VStr ''open'') \<or>
       (\<exists>y. map_of b ''status'' = Some (JStr y) \<and> map_of doc ''status'' = Some (VStr y))) \<and>
      ((map_of b ''assignee'' = None \<or> map_of b ''assignee'' = Some JNull) \<and>
         map_of doc ''assignee'' = Some VNone \<or>
       (\<exists>a. map_of b ''assignee'' = Some (JStr a) \<and> map_of doc ''assignee'' = Some (VStr a))) \<and>
      map_of stored ''created_at'' = Some (VDatetime now) \<and>
      map_of stored ''updated_at'' = Some (VDatetime now) \<and>
      map_of doc ''created_at'' = Some (VIsoformat now) \<and>
      map_of doc ''updated_at'' = Some (VIsoformat now)"
proof -
  define stored where "stored =
    [(''_id'', VObjectId oid), (''title'', VStr (title p)),
     (''description'', VStr (description p)), (''requester_email'', VStr (requester_email p)),
     (''category'', VStr (category p)), (''priority'', VStr (priority p)),
     (''status'', VStr (status p)), (''assignee'', opt_val (assignee p)),
     (''created_at'', VDatetime now), (''updated_at'', VDatetime now)]"
  define db' where "db' = db(''ticket'' := db ''ticket'' @ [stored])"
  define r where "r =
    [(''title'', VStr (title p)), (''description'', VStr (description p)),
     (''requester_email'', VStr (requester_email p)), (''category'', VStr (category p)),
     (''priority'', VStr (priority p)), (''status'', VStr (status p)),
     (''assignee'', opt_val (assignee p)),
     (''created_at'', VIsoformat now), (''updated_at'', VIsoformat now),
     (''id'', VStr (str_oid oid))]"
  have post: "POST_tickets email now oid b (Some db) =
                (Inr [(''id'', VStr (str_oid oid))], Some db')"
    using valid by (simp add: POST_tickets_def create_ticket_connected stored_def db'_def)
  have "\<forall>d \<in> set (db ''ticket''). \<not> matches [(''_id'', VObjectId oid)] d"
    using fresh by (simp add: matches_single)
  moreover have "matches [(''_id'', VObjectId oid)] stored"
    by (simp add: matches_single stored_def)
  ultimately have found: "find_one (db' ''ticket'') [(''_id'', VObjectId oid)] = Some stored"
    by (simp add: db'_def find_one_append_new)
  have out: "to_out stored = Inr r"
    unfolding stored_def r_def by (rule to_out_new_ticket)
  have "list_all has_id (db' ''comment'')"
    using ids by (simp add: db'_def)
  then obtain cs where cs:
    "each_out (sort_created_at (find_coll (db' ''comment'') [(''ticket_id'', VStr (str_oid oid))]))
       = Inr cs"
    using comments_out_total by blast
  define doc where "doc = AList.update ''comments'' (VList cs) r"
  have get: "get_ticket (str_oid oid) (Some db') = Inr doc"
    unfolding doc_def using ObjectId_str_oid [OF gen] found out cs by (rule get_ticket_found)
  have doc: "map_of doc k = map_of r k" if "k \<noteq> ''comments''" for k
    using that by (simp add: doc_def update_conv')
  note v = Ticket_validate_fields [OF valid]
  have title: "map_of b ''title'' = Some (JStr (title p))"
    and descr: "map_of b ''description'' = Some (JStr (description p))"
    and cat: "map_of b ''category'' = Some (JStr (category p))"
    using v_str_lenD [OF v(1)] v_str_lenD [OF v(2)] v_strD [OF v(4)] by simp_all
  obtain x where mail: "map_of b ''requester_email'' = Some (JStr x)"
      "email x = Some (requester_email p)"
    using v_emailD [OF v(3)] by blast
  have prio: "map_of b ''priority'' = None \<and> map_of doc ''priority'' = Some (VStr ''medium'') \<or>
       (\<exists>y. map_of b ''priority'' = Some (JStr y) \<and> map_of doc ''priority'' = Some (VStr y))"
    using v_literalD [OF v(5)] by (auto simp: doc r_def)
  have stat: "map_of b ''status'' = None \<and> map_of doc ''status'' = Some (VStr ''open'') \<or>
       (\<exists>y. map_of b ''status'' = Some (JStr y) \<and> map_of doc ''status'' = Some (VStr y))"
    using v_literalD [OF v(6)] by (auto simp: doc r_def)
  have assg: "(map_of b ''assignee'' = None \<or> map_of b ''assignee'' = Some JNull) \<and>
         map_of doc ''assignee'' = Some VNone \<or>
       (\<exists>a. map_of b ''assignee'' = Some (JStr a) \<and> map_of doc ''assignee'' = Some (VStr a))"
    using v_optional_strD [OF v(7)] by (auto simp: doc r_def opt_val_def)
  have fields:
    "map_of doc ''id'' = Some (VStr (str_oid oid))"
    "map_of doc ''title'' = Some (VStr (title p))"
    "map_of doc ''description'' = Some (VStr (description p))"
    "map_of doc ''requester_email'' = Some (VStr (requester_email p))"
    "map_of doc ''category'' = Some (VStr (category p))"
    "map_of doc ''created_at'' = Some (VIsoformat now)"
    "map_of doc ''updated_at'' = Some (VIsoformat now)"
    by (simp_all add: doc r_def)
  have st: "map_of stored ''created_at'' = Some (VDatetime now)"
    "map_of stored ''updated_at'' = Some (VDatetime now)"
    by (simp_all add: stored_def)
  show ?thesis
    apply (rule exI [of _ stored])
    apply (rule exI [of _ doc])
    apply (rule exI [of _ "title p"])
    apply (rule exI [of _ "description p"])
    apply (rule exI [of _ x])
    apply (rule exI [of _ "requester_email p"])
    apply (rule exI [of _ "category p"])
    using post get title descr cat mail prio stat assg fields st unfolding db'_def
    by simp
qed

theorem create_then_get_witness:
  "\<exists>stored doc.
     POST_tickets lower_domain_email 7 (Oid id_c) upper_body (Some example_db) =
       (Inr [(''id'', VStr id_c)],
        Some (example_db(''ticket'' := example_db ''ticket'' @ [stored]))) \<and>
     get_ticket id_c (Some (example_db(''ticket'' := example_db ''ticket'' @ [stored]))) =
       Inr doc \<and>
     map_of doc ''title'' = Some (VStr ''Printer jam'') \<and>
     map_of doc ''requester_email'' = Some (VStr ''Ann@example.org'') \<and>
     map_of doc ''priority'' = Some (VStr ''urgent'') \<and>
     map_of doc ''status'' = Some (VStr ''open'') \<and>
     map_of doc ''assignee'' = Some (VStr ''carol'') \<and>
     map_of doc ''created_at'' = Some (VIsoformat 7) \<and>
     map_of doc ''updated_at'' = Some (VIsoformat 7)"
proof -
  note h = create_then_get [where db = example_db and now = 7,
      OF upper_body_valid generated_id_c id_c_fresh example_comments_have_id]
  from h obtain stored doc t d x e c where
    post: "POST_tickets lower_domain_email 7 (Oid id_c) upper_body (Some example_db) =
       (Inr [(''id'', VStr (str_oid (Oid id_c)))],
        Some (example_db(''ticket'' := example_db ''ticket'' @ [stored])))" and
    get: "get_ticket (str_oid (Oid id_c))
       (Some (example_db(''ticket'' := example_db ''ticket'' @ [stored]))) = Inr doc" and
    title: "map_of upper_body ''title'' = Some (JStr t)" "map_of doc ''title'' = Some (VStr t)" and
    mail: "map_of upper_body ''requester_email'' = Some (JStr x)" "lower_domain_email x = Some e"
      "map_of doc ''requester_email'' = Some (VStr e)" and
    prio: "map_of upper_body ''priority'' = None \<and> map_of doc ''priority'' = Some (VStr ''medium'') \<or>
       (\<exists>y. map_of upper_body ''priority'' = Some (JStr y) \<and>
            map_of doc ''priority'' = Some (VStr y))" and
    stat: "map_of upper_body ''status'' = None \<and> map_of doc ''status'' = Some (VStr ''open'') \<or>
       (\<exists>y. map_of upper_body ''status'' = Some (JStr y) \<and>
            map_of doc ''status'' = Some (VStr y))" and
    assg: "(map_of upper_body ''assignee'' = None \<or> map_of upper_body ''assignee'' = Some JNull) \<and>
         map_of doc ''assignee'' = Some VNone \<or>
       (\<exists>a. map_of upper_body ''assignee'' = Some (JStr a) \<and>
            map_of doc ''assignee'' = Some (VStr a))" and
    stamps: "map_of doc ''created_at'' = Some (VIsoformat 7)"
      "map_of doc ''updated_at'' = Some (VIsoformat 7)"
    by (elim exE conjE)
  from title have t: "map_of doc ''title'' = Some (VStr ''Printer jam'')"
    by (simp add: upper_body_def)
  from mail have "x = ''Ann@EXAMPLE.ORG''"
    by (simp add: upper_body_def)
  with mail lower_domain_example have e: "map_of doc ''requester_email'' = Some (VStr ''Ann@example.org'')"
    by simp
  from prio have p: "map_of doc ''priority'' = Some (VStr ''urgent'')"
    by (simp add: upper_body_def)
  from stat have s: "map_of doc ''status'' = Some (VStr ''open'')"
    by (simp add: upper_body_def)
  from assg have a: "map_of doc ''assignee'' = Some (VStr ''carol'')"
    by (simp add: upper_body_def)
  from post get t e p s a stamps show ?thesis
    by (intro exI [of _ stored] exI [of _ doc]) simp
qed

text \<open>The counterexample to C2 as it is stated: \<^verbatim>\<open>EmailStr\<close> keeps the local part of
  an address and puts its domain in lower case, as \<open>lower_domain_email\<close> does. The body
  has the address \<open>Ann@EXAMPLE.ORG\<close>; the record read back has \<open>Ann@example.org\<close>.\<close>

theorem email_is_rewritten:
  "map_of upper_body ''requester_email'' = Some (JStr ''Ann@EXAMPLE.ORG'') \<and>
   fst (POST_tickets lower_domain_email 10 (Oid id_c) upper_body (Some no_documents)) =
     Inr [(''id'', VStr id_c)] \<and>
   get_ticket id_c
     (snd (POST_tickets lower_domain_email 10 (Oid id_c) upper_body (Some no_documents))) =
     Inr [(''title'', VStr ''Printer jam''), (''description'', VStr ''Tray two jams''),
          (''requester_email'', VStr ''Ann@example.org''), (''category'', VStr ''Hardware''),
          (''priority'', VStr ''urgent''), (''status'', VStr ''open''),
          (''assignee'', VStr ''carol''),
          (''created_at'', VIsoformat 10), (''updated_at'', VIsoformat 10),
          (''id'', VStr id_c), (''comments'', VList [])]"
proof -
  have post: "POST_tickets lower_domain_email 10 (Oid id_c) upper_body (Some no_documents) =
      (Inr [(''id'', VStr id_c)],
       Some (no_documents(''ticket'' :=
        [[(''_id'', VObjectId (Oid id_c)), (''title'', VStr ''Printer jam''),
          (''description'', VStr ''Tray two jams''),
          (''requester_email'', VStr ''Ann@example.org''),
          (''category'', VStr ''Hardware''), (''priority'', VStr ''urgent''),
          (''status'', VStr ''open''), (''assignee'', VStr ''carol''),
          (''created_at'', VDatetime 10), (''updated_at'', VDatetime 10)]])))"
    by (simp add: POST_tickets_def upper_body_valid create_ticket_connected opt_val_def
        no_documents_def)
  have "get_ticket id_c
     (Some (no_documents(''ticket'' :=
        [[(''_id'', VObjectId (Oid id_c)), (''title'', VStr ''Printer jam''),
          (''description'', VStr ''Tray two jams''),
          (''requester_email'', VStr ''Ann@example.org''),
          (''category'', VStr ''Hardware''), (''priority'', VStr ''urgent''),
          (''status'', VStr ''open''), (''assignee'', VStr ''carol''),
          (''created_at'', VDatetime 10), (''updated_at'', VDatetime 10)]]))) =
     Inr [(''title'', VStr ''Printer jam''), (''description'', VStr ''Tray two jams''),
          (''requester_email'', VStr ''Ann@example.org''), (''category'', VStr ''Hardware''),
          (''priority'', VStr ''urgent''), (''status'', VStr ''open''),
          (''assignee'', VStr ''carol''),
          (''created_at'', VIsoformat 10), (''updated_at'', VIsoformat 10),
          (''id'', VStr id_c), (''comments'', VList [])]"
    by (simp add: get_ticket_def ObjectId_id_c find_one_def find_coll_def matches_def
        to_out_new_ticket sort_created_at_def no_documents_def)
  then show ?thesis
    unfolding post by (simp add: upper_body_def)
qed

text \<open>
  C5. The claim: every stored ticket keeps a title of 3 to 200 characters and a description
  of at least 5, and malformed values are rejected before any write. \<^verbatim>\<open>Ticket\<close>
  declares these bounds and rejects the title \<open>x\<close> on creation, but \<^verbatim>\<open>TicketUpdate\<close>
  declares \<^verbatim>\<open>title: Optional[str] = None\<close> and \<^verbatim>\<open>description: Optional[str] = None\<close>
  without them. After a valid creation, the PATCH body \<open>{title: "x", description: null}\<close>
  is accepted and written: the ticket read back has the title \<open>x\<close> and no description.
\<close>

theorem short_title_stored:
  "Ticket_validate at_sign_email [(''title'', JStr ''x''), (''description'', JStr ''Tray two jams''),
      (''requester_email'', JStr ''ann@example.org''), (''category'', JStr ''Hardware'')] = None \<and>
   fst (POST_tickets at_sign_email 10 (Oid id_c) ticket_body (Some no_documents)) =
     Inr [(''id'', VStr id_c)] \<and>
   get_ticket id_c
     (snd (PATCH_ticket at_sign_email 20 id_c [(''title'', JStr ''x''), (''description'', JNull)]
        (snd (POST_tickets at_sign_email 10 (Oid id_c) ticket_body (Some no_documents))))) =
     Inr [(''title'', VStr ''x''), (''description'', VNone),
          (''requester_email'', VStr ''ann@example.org''), (''category'', VStr ''Hardware''),
          (''priority'', VStr ''medium''), (''status'', VStr ''open''), (''assignee'', VNone),
          (''created_at'', VIsoformat 10), (''updated_at'', VIsoformat 20),
          (''id'', VStr id_c), (''comments'', VList [])]"
proof -
  have v: "Ticket_validate at_sign_email [(''title'', JStr ''x''),
      (''description'', JStr ''Tray two jams''),
      (''requester_email'', JStr ''ann@example.org''), (''category'', JStr ''Hardware'')] = None"
    by (simp add: Ticket_validate_def v_str_len_def v_str_def)
  have post: "POST_tickets at_sign_email 10 (Oid id_c) ticket_body (Some no_documents) =
      (Inr [(''id'', VStr id_c)],
       Some (no_documents(''ticket'' :=
        [[(''_id'', VObjectId (Oid id_c)), (''title'', VStr ''Printer jam''),
          (''description'', VStr ''Tray two jams''),
          (''requester_email'', VStr ''ann@example.org''),
          (''category'', VStr ''Hardware''), (''priority'', VStr ''medium''),
          (''status'', VStr ''open''), (''assignee'', VNone),
          (''created_at'', VDatetime 10), (''updated_at'', VDatetime 10)]])))"
    by (simp add: POST_tickets_def ticket_body_valid create_ticket_connected opt_val_def
        no_documents_def)
  have upd: "TicketUpdate_validate at_sign_email [(''title'', JStr ''x''), (''description'', JNull)] =
      Some (no_updates\<lparr>u_title := Set (Some ''x''), u_description := Set None\<rparr>)"
    by (simp add: TicketUpdate_validate_def v_opt_field_def no_updates_def)
  have patch: "snd (PATCH_ticket at_sign_email 20 id_c [(''title'', JStr ''x''), (''description'', JNull)]
        (snd (POST_tickets at_sign_email 10 (Oid id_c) ticket_body (Some no_documents)))) =
      Some (no_documents(''ticket'' :=
        [[(''_id'', VObjectId (Oid id_c)), (''title'', VStr ''x''),
          (''description'', VNone),
          (''requester_email'', VStr ''ann@example.org''),
          (''category'', VStr ''Hardware''), (''priority'', VStr ''medium''),
          (''status'', VStr ''open''), (''assignee'', VNone),
          (''created_at'', VDatetime 10), (''updated_at'', VDatetime 20)]]))"
    by (simp add: post PATCH_ticket_def upd update_ticket_def model_dump_exclude_unset_def
        dump_field_def no_updates_def opt_val_def ObjectId_id_c matches_def set_fields_def
        to_out_def pop_id_def)
  have "get_ticket id_c
     (Some (no_documents(''ticket'' :=
        [[(''_id'', VObjectId (Oid id_c)), (''title'', VStr ''x''),
          (''description'', VNone),
          (''requester_email'', VStr ''ann@example.org''),
          (''category'', VStr ''Hardware''), (''priority'', VStr ''medium''),
          (''status'', VStr ''open''), (''assignee'', VNone),
          (''created_at'', VDatetime 10), (''updated_at'', VDatetime 20)]]))) =
     Inr [(''title'', VStr ''x''), (''description'', VNone),
          (''requester_email'', VStr ''ann@example.org''), (''category'', VStr ''Hardware''),
          (''priority'', VStr ''medium''), (''status'', VStr ''open''), (''assignee'', VNone),
          (''created_at'', VIsoformat 10), (''updated_at'', VIsoformat 20),
          (''id'', VStr id_c), (''comments'', VList [])]"
    by (simp add: get_ticket_def ObjectId_id_c find_one_def find_coll_def matches_def
        to_out_new_ticket sort_created_at_def no_documents_def)
  then show ?thesis
    unfolding patch by (simp add: v post)
qed

text \<open>
  C6. The claim: a PATCH with the body \<open>{status: "resolved"}\<close> changes only the status
  and \<^verbatim>\<open>updated_at\<close>, and the new \<^verbatim>\<open>updated_at\<close> is strictly greater than the
  previous one. The code sets \<^verbatim>\<open>updated_at\<close> to \<^verbatim>\<open>datetime.now\<close>, whatever the
  stored value is, so the strict increase fails when the clock reads the same instant
  again. The claim as amended: for an existing ticket the request replaces the stored
  document \<open>d\<close> (the first with this identifier) by a document \<open>d'\<close> at the same place;
  every other ticket and every other collection is as before. \<open>d'\<close> has the status
  \<open>resolved\<close> and the clock's reading at the request as \<^verbatim>\<open>updated_at\<close>, and agrees
  with \<open>d\<close> on every other key, \<^verbatim>\<open>created_at\<close> included. The new \<^verbatim>\<open>updated_at\<close>
  is strictly greater than the previous one whenever that reading is later than the stored
  instant.
\<close>

theorem resolve_changes_status_only:
  assumes oid: "ObjectId tid = Inr oid"
      and found: "find_one (db ''ticket'') [(''_id'', VObjectId oid)] = Some d"
  shows "\<exists>pre post d' r.
      db ''ticket'' = pre @ d # post \<and>
      (\<forall>x \<in> set pre. map_of x ''_id'' \<noteq> Some (VObjectId oid)) \<and>
      PATCH_ticket email now tid [(''status'', JStr ''resolved'')] (Some db) =
        (Inr r, Some (db(''ticket'' := pre @ d' # post))) \<and>
      to_out d' = Inr r \<and>
      map_of d' ''status'' = Some (VStr ''resolved'') \<and>
      map_of d' ''updated_at'' = Some (VDatetime now) \<and>
      (\<forall>k. k \<noteq> ''status'' \<and> k \<noteq> ''updated_at'' \<longrightarrow> map_of d' k = map_of d k) \<and>
      (\<forall>t. map_of d ''updated_at'' = Some (VDatetime t) \<and> t < now \<longrightarrow>
           (\<exists>t'. map_of d' ''updated_at'' = Some (VDatetime t') \<and> t < t'))"
proof -
  let ?flt = "[(''_id'', VObjectId oid)]"
  let ?ts = "[(''status'', VStr ''resolved''), (''updated_at'', VDatetime now)]"
  define d' where "d' = set_fields ?ts d"
  from find_one_and_update_found [OF found, of ?ts] obtain pre post where
    split: "db ''ticket'' = pre @ d # post" and
    first: "\<forall>x \<in> set pre. \<not> matches ?flt x" and
    upd: "find_one_and_update (db ''ticket'') ?flt ?ts = (pre @ d' # post, Some d')"
    unfolding d'_def by blast
  have m: "map_of d' = (map_of d)(''status'' \<mapsto> VStr ''resolved'', ''updated_at'' \<mapsto> VDatetime now)"
    unfolding d'_def by (rule map_of_resolved)
  have "map_of d ''_id'' = Some (VObjectId oid)"
    using find_one_SomeD [OF found] by (simp add: matches_single)
  with m have id': "map_of d' ''_id'' = Some (VObjectId oid)"
    by simp
  then have "has_id d'" "d' \<noteq> []"
    by (auto simp: has_id_def)
  then obtain r where r: "to_out d' = Inr r"
    using to_out_has_id by blast
  have patch: "PATCH_ticket email now tid [(''status'', JStr ''resolved'')] (Some db) =
      (Inr r, Some (db(''ticket'' := pre @ d' # post)))"
    using oid upd r \<open>d' \<noteq> []\<close>
    by (simp add: PATCH_ticket_def resolved_body_valid update_ticket_def resolved_to_set)
  have frame: "\<forall>k. k \<noteq> ''status'' \<and> k \<noteq> ''updated_at'' \<longrightarrow> map_of d' k = map_of d k"
    using m by simp
  have new: "map_of d' ''status'' = Some (VStr ''resolved'')"
    "map_of d' ''updated_at'' = Some (VDatetime now)"
    using m by simp_all
  then have later: "\<forall>t. map_of d ''updated_at'' = Some (VDatetime t) \<and> t < now \<longrightarrow>
           (\<exists>t'. map_of d' ''updated_at'' = Some (VDatetime t') \<and> t < t')"
    by simp
  from first have first': "\<forall>x \<in> set pre. map_of x ''_id'' \<noteq> Some (VObjectId oid)"
    by (simp add: matches_single)
  from split first' patch r new frame later show ?thesis
    by blast
qed

theorem resolve_changes_status_only_witness:
  "\<exists>pre post d' r.
     example_db ''ticket'' = pre @ ticket_b # post \<and>
     PATCH_ticket at_sign_email 30 id_b [(''status'', JStr ''resolved'')] (Some example_db) =
       (Inr r, Some (example_db(''ticket'' := pre @ d' # post))) \<and>
     map_of d' ''status'' = Some (VStr ''resolved'') \<and>
     map_of d' ''updated_at'' = Some (VDatetime 30) \<and>
     map_of d' ''created_at'' = Some (VDatetime 2) \<and>
     map_of d' ''title'' = Some (VStr ''No network'')"
proof -
  note h = resolve_changes_status_only [where db = example_db and email = at_sign_email
      and now = 30, OF ObjectId_id_b find_ticket_b]
  from h obtain pre post d' r where
    w1: "example_db ''ticket'' = pre @ ticket_b # post" and
    w2: "PATCH_ticket at_sign_email 30 id_b [(''status'', JStr ''resolved'')] (Some example_db) =
       (Inr r, Some (example_db(''ticket'' := pre @ d' # post)))" and
    w3: "map_of d' ''status'' = Some (VStr ''resolved'')" and
    w4: "map_of d' ''updated_at'' = Some (VDatetime 30)" and
    w6: "\<forall>k. k \<noteq> ''status'' \<and> k \<noteq> ''updated_at'' \<longrightarrow> map_of d' k = map_of ticket_b k"
    by (elim exE conjE)
  have "map_of d' ''created_at'' = map_of ticket_b ''created_at''"
    "map_of d' ''title'' = map_of ticket_b ''title''"
    using w6 by simp_all
  then have w7: "map_of d' ''created_at'' = Some (VDatetime 2)"
    "map_of d' ''title'' = Some (VStr ''No network'')"
    by (simp_all add: ticket_b_def)
  from w1 w2 w3 w4 w7 show ?thesis
    by blast
qed

text \<open>The counterexample to C6 as it is stated: the second ticket of the example store was
  updated at the instant 2. A PATCH served while the clock still reads 2 sets the status
  and leaves \<^verbatim>\<open>updated_at\<close> at 2, which is not greater.\<close>

theorem equal_reading_equal_stamp:
  "find_one (example_db ''ticket'') [(''_id'', VObjectId (Oid id_b))] = Some ticket_b \<and>
   map_of ticket_b ''updated_at'' = Some (VDatetime 2) \<and>
   PATCH_ticket at_sign_email 2 id_b [(''status'', JStr ''resolved'')] (Some example_db) =
     (Inr [(''title'', VStr ''No network''), (''description'', VStr ''Cable unplugged''),
           (''requester_email'', VStr ''bob@example.org''), (''category'', VStr ''Network''),
           (''priority'', VStr ''low''), (''status'', VStr ''resolved''),
           (''assignee'', VStr ''carol''),
           (''created_at'', VIsoformat 2), (''updated_at'', VIsoformat 2),
           (''id'', VStr id_b)],
      Some (example_db(''ticket'' :=
        [ticket_a,
         [(''_id'', VObjectId (Oid id_b)), (''title'', VStr ''No network''),
          (''description'', VStr ''Cable unplugged''),
          (''requester_email'', VStr ''bob@example.org''),
          (''category'', VStr ''Network''), (''priority'', VStr ''low''),
          (''status'', VStr ''resolved''), (''assignee'', VStr ''carol''),
          (''created_at'', VDatetime 2), (''updated_at'', VDatetime 2)]]))) \<and>
   \<not> (2::nat) < 2"
proof -
  have upd: "find_one_and_update (example_db ''ticket'') [(''_id'', VObjectId (Oid id_b))]
      [(''status'', VStr ''resolved''), (''updated_at'', VDatetime 2)] =
      ([ticket_a,
         [(''_id'', VObjectId (Oid id_b)), (''title'', VStr ''No network''),
          (''description'', VStr ''Cable unplugged''),
          (''requester_email'', VStr ''bob@example.org''),
          (''category'', VStr ''Network''), (''priority'', VStr ''low''),
          (''status'', VStr ''resolved''), (''assignee'', VStr ''carol''),
          (''created_at'', VDatetime 2), (''updated_at'', VDatetime 2)]],
       Some [(''_id'', VObjectId (Oid id_b)), (''title'', VStr ''No network''),
          (''description'', VStr ''Cable unplugged''),
          (''requester_email'', VStr ''bob@example.org''),
          (''category'', VStr ''Network''), (''priority'', VStr ''low''),
          (''status'', VStr ''resolved''), (''assignee'', VStr ''carol''),
          (''created_at'', VDatetime 2), (''updated_at'', VDatetime 2)])"
    by (simp add: example_db_def ticket_a_def ticket_b_def matches_def set_fields_def
        id_a_def id_b_def)
  have "PATCH_ticket at_sign_email 2 id_b [(''status'', JStr ''resolved'')] (Some example_db) =
     (Inr [(''title'', VStr ''No network''), (''description'', VStr ''Cable unplugged''),
           (''requester_email'', VStr ''bob@example.org''), (''category'', VStr ''Network''),
           (''priority'', VStr ''low''), (''status'', VStr ''resolved''),
           (''assignee'', VStr ''carol''),
           (''created_at'', VIsoformat 2), (''updated_at'', VIsoformat 2),
           (''id'', VStr id_b)],
      Some (example_db(''ticket'' :=
        [ticket_a,
         [(''_id'', VObjectId (Oid id_b)), (''title'', VStr ''No network''),
          (''description'', VStr ''Cable unplugged''),
          (''requester_email'', VStr ''bob@example.org''),
          (''category'', VStr ''Network''), (''priority'', VStr ''low''),
          (''status'', VStr ''resolved''), (''assignee'', VStr ''carol''),
          (''created_at'', VDatetime 2), (''updated_at'', VDatetime 2)]])))"
    by (simp add: PATCH_ticket_def resolved_body_valid update_ticket_def resolved_to_set
        ObjectId_id_b upd to_out_new_ticket)
  then show ?thesis
    using find_ticket_b by (simp add: ticket_b_def)
qed

text \<open>
  C7. For an existing ticket, GET /api/tickets/{id} with the ticket's identifier returns
  the ticket (its \<^verbatim>\<open>_id\<close> as the string \<^verbatim>\<open>id\<close>, the other fields as stored) with
  the key \<^verbatim>\<open>comments\<close>: the rendering, one by one, of a list \<open>cs\<close> that holds exactly
  the stored comments whose \<^verbatim>\<open>ticket_id\<close> is that identifier and is ascending in
  \<^verbatim>\<open>created_at\<close>. The order of insertion does not matter: when the creation times of
  these comments are distinct, every store with the same tickets and the same comments in
  any order gives the same answer.
\<close>

theorem ticket_comments_sorted:
  assumes gen: "generated_oid oid"
      and found: "find_one (db ''ticket'') [(''_id'', VObjectId oid)] = Some d"
      and ids: "list_all has_id (db ''comment'')"
  shows "\<exists>doc cs comments.
      get_ticket (str_oid oid) (Some db) = Inr doc \<and>
      map_of doc ''id'' = Some (VStr (str_oid oid)) \<and>
      (\<forall>k. k \<notin> {''_id'', ''id'', ''created_at'', ''updated_at'', ''comments''} \<longrightarrow>
           map_of doc k = map_of d k) \<and>
      map_of doc ''comments'' = Some (VList comments) \<and>
      list_all2 (\<lambda>c r. to_out c = Inr r) cs comments \<and>
      mset cs = mset (filter (\<lambda>c. map_of c ''ticket_id'' = Some (VStr (str_oid oid)))
                       (db ''comment'')) \<and>
      sorted (map created_at_key cs) \<and>
      (\<forall>db'. db' ''ticket'' = db ''ticket'' \<and> mset (db' ''comment'') = mset (db ''comment'') \<and>
          distinct (map created_at_key
            (filter (\<lambda>c. map_of c ''ticket_id'' = Some (VStr (str_oid oid))) (db ''comment'')))
          \<longrightarrow> get_ticket (str_oid oid) (Some db') = Inr doc)"
proof -
  let ?tid = "str_oid oid"
  let ?sel = "\<lambda>c. map_of c ''ticket_id'' = Some (VStr ?tid)"
  define cs where "cs = sort_created_at (filter ?sel (db ''comment''))"
  have oid: "ObjectId ?tid = Inr oid"
    using gen by (rule ObjectId_str_oid)
  have d_id: "map_of d ''_id'' = Some (VObjectId oid)"
    using find_one_SomeD [OF found] by (simp add: matches_single)
  then have "has_id d"
    by (simp add: has_id_def)
  then obtain r where r: "to_out d = Inr r"
    using to_out_has_id by blast
  have "list_all has_id cs"
    using ids by (simp add: cs_def list_all_sort_created_at) (simp add: list_all_iff)
  then obtain comments where comments: "each_out cs = Inr comments"
    using each_out_total by blast
  define doc where "doc = AList.update ''comments'' (VList comments) r"
  have get: "get_ticket ?tid (Some db) = Inr doc"
    unfolding doc_def using oid found r
    by (rule get_ticket_found) (simp add: find_coll_single comments [unfolded cs_def])
  have "map_of doc ''id'' = Some (VStr ?tid)"
    using to_out_id [OF r d_id] by (simp add: doc_def update_conv')
  moreover have "\<forall>k. k \<notin> {''_id'', ''id'', ''created_at'', ''updated_at'', ''comments''} \<longrightarrow>
           map_of doc k = map_of d k"
    using to_out_keeps [OF r] by (simp add: doc_def update_conv')
  moreover have "map_of doc ''comments'' = Some (VList comments)"
    by (simp add: doc_def update_conv')
  moreover have "list_all2 (\<lambda>c r. to_out c = Inr r) cs comments"
    using comments by (simp add: each_out_Inr_iff)
  moreover have "mset cs = mset (filter ?sel (db ''comment''))"
    by (simp add: cs_def sort_created_at_def)
  moreover have "sorted (map created_at_key cs)"
    by (simp add: cs_def sort_created_at_def)
  moreover have "get_ticket ?tid (Some db') = Inr doc"
    if same: "db' ''ticket'' = db ''ticket''"
      and perm: "mset (db' ''comment'') = mset (db ''comment'')"
      and keys: "distinct (map created_at_key (filter ?sel (db ''comment'')))"
    for db'
  proof -
    have "mset (filter ?sel (db ''comment'')) = mset (filter ?sel (db' ''comment''))"
      using perm by simp
    then have "sort_created_at (filter ?sel (db' ''comment'')) = cs"
      unfolding cs_def sort_created_at_def using keys by (rule sort_key_perm [symmetric])
    then have "each_out (sort_created_at (find_coll (db' ''comment'') [(''ticket_id'', VStr ?tid)]))
        = Inr comments"
      using comments by (simp add: find_coll_single)
    with oid found r show ?thesis
      unfolding doc_def same [symmetric] by (rule get_ticket_found)
  qed
  ultimately show ?thesis
    using get by blast
qed

theorem ticket_comments_sorted_witness:
  "get_ticket id_a (Some (example_db(''comment'' := rev (example_db ''comment'')))) =
     get_ticket id_a (Some example_db) \<and>
   get_ticket id_a (Some example_db) =
     Inr [(''title'', VStr ''Printer jam''),
      (''description'', VStr ''Tray two jams''), (''requester_email'', VStr ''ann@example.org''),
      (''category'', VStr ''Hardware''), (''priority'', VStr ''high''),
      (''status'', VStr ''open''), (''assignee'', VNone),
      (''created_at'', VIsoformat 1), (''updated_at'', VIsoformat 1), (''id'', VStr id_a),
      (''comments'', VList
        [[(''ticket_id'', VStr id_a), (''author'', VStr ''dan''), (''body'', VStr ''seen''),
          (''created_at'', VIsoformat 3), (''updated_at'', VIsoformat 3), (''id'', VStr ''c2'')],
         [(''ticket_id'', VStr id_a), (''author'', VStr ''dan''), (''body'', VStr ''seen''),
          (''created_at'', VIsoformat 4), (''updated_at'', VIsoformat 4), (''id'', VStr ''c4'')],
         [(''ticket_id'', VStr id_a), (''author'', VStr ''dan''), (''body'', VStr ''seen''),
          (''created_at'', VIsoformat 5), (''updated_at'', VIsoformat 5), (''id'', VStr ''c1'')]])]"
proof -
  let ?db' = "example_db(''comment'' := rev (example_db ''comment''))"
  note h = ticket_comments_sorted [where db = example_db and oid = "Oid id_a",
      OF generated_id_a _ example_comments_have_id, simplified, OF find_ticket_a]
  from h obtain doc where
    doc: "get_ticket id_a (Some example_db) = Inr doc" and
    perm: "\<forall>db'. db' ''ticket'' = example_db ''ticket'' \<and>
          mset (db' ''comment'') = mset (example_db ''comment'') \<and>
          distinct (map created_at_key
            (filter (\<lambda>c. map_of c ''ticket_id'' = Some (VStr id_a)) (example_db ''comment'')))
          \<longrightarrow> get_ticket id_a (Some db') = Inr doc"
    by (elim exE conjE)
  have "?db' ''ticket'' = example_db ''ticket''"
    by simp
  moreover have "mset (?db' ''comment'') = mset (example_db ''comment'')"
    by simp
  moreover have "distinct (map created_at_key
      (filter (\<lambda>c. map_of c ''ticket_id'' = Some (VStr id_a)) (example_db ''comment'')))"
    unfolding example_comments_of_a by (simp add: created_at_key_def comment_of_def)
  ultimately have "get_ticket id_a (Some ?db') = Inr doc"
    using perm by blast
  with doc show ?thesis
    using get_ticket_a by simp
qed

text \<open>
  C8. On a connected store, GET /api/tickets with non-empty \<^verbatim>\<open>status\<close> and
  \<^verbatim>\<open>priority\<close> returns the rendering, one by one and in the order of the collection,
  of exactly the tickets whose \<^verbatim>\<open>status\<close> and \<^verbatim>\<open>priority\<close> both equal the given
  values; with one parameter absent only the other one selects, and with both absent every
  ticket is returned.
\<close>

theorem list_tickets_filters:
  assumes ids: "list_all has_id (db ''ticket'')" and st: "st \<noteq> []" and pr: "pr \<noteq> []"
  shows "(\<exists>result. list_tickets (Some st) (Some pr) (Some db) = Inr result \<and>
            list_all2 (\<lambda>d r. to_out d = Inr r)
              (filter (\<lambda>d. map_of d ''status'' = Some (VStr st) \<and>
                           map_of d ''priority'' = Some (VStr pr)) (db ''ticket'')) result \<and>
            list_all (\<lambda>r. map_of r ''status'' = Some (VStr st) \<and>
                          map_of r ''priority'' = Some (VStr pr)) result) \<and>
         (\<exists>result. list_tickets (Some st) None (Some db) = Inr result \<and>
            list_all2 (\<lambda>d r. to_out d = Inr r)
              (filter (\<lambda>d. map_of d ''status'' = Some (VStr st)) (db ''ticket'')) result) \<and>
         (\<exists>result. list_tickets None (Some pr) (Some db) = Inr result \<and>
            list_all2 (\<lambda>d r. to_out d = Inr r)
              (filter (\<lambda>d. map_of d ''priority'' = Some (VStr pr)) (db ''ticket'')) result) \<and>
         (\<exists>result. list_tickets None None (Some db) = Inr result \<and>
            list_all2 (\<lambda>d r. to_out d = Inr r) (db ''ticket'') result)"
proof (intro conjI)
  from list_tickets_connected [where db = db and sq = "Some st" and pq = "Some pr", OF ids] st pr
  obtain result where r: "list_tickets (Some st) (Some pr) (Some db) = Inr result"
    "list_all2 (\<lambda>d r. to_out d = Inr r)
       (filter (\<lambda>d. map_of d ''status'' = Some (VStr st) \<and>
                    map_of d ''priority'' = Some (VStr pr)) (db ''ticket'')) result"
    by (auto simp: matches_query_filter)
  have "map_of x ''status'' = Some (VStr st) \<and> map_of x ''priority'' = Some (VStr pr)"
    if "x \<in> set result" for x
  proof -
    from list_all2_rightD [OF r(2) that] obtain d where
      d: "d \<in> set (filter (\<lambda>d. map_of d ''status'' = Some (VStr st) \<and>
                    map_of d ''priority'' = Some (VStr pr)) (db ''ticket''))" "to_out d = Inr x"
      by (elim bexE)
    have "map_of x ''status'' = map_of d ''status''" "map_of x ''priority'' = map_of d ''priority''"
      using d(2) by (simp_all add: to_out_keeps)
    with d(1) show ?thesis
      by simp
  qed
  then have "list_all (\<lambda>r. map_of r ''status'' = Some (VStr st) \<and>
                          map_of r ''priority'' = Some (VStr pr)) result"
    by (simp add: list_all_iff)
  with r show "\<exists>result. list_tickets (Some st) (Some pr) (Some db) = Inr result \<and>
            list_all2 (\<lambda>d r. to_out d = Inr r)
              (filter (\<lambda>d. map_of d ''status'' = Some (VStr st) \<and>
                           map_of d ''priority'' = Some (VStr pr)) (db ''ticket'')) result \<and>
            list_all (\<lambda>r. map_of r ''status'' = Some (VStr st) \<and>
                          map_of r ''priority'' = Some (VStr pr)) result"
    by blast
next
  from list_tickets_connected [where db = db and sq = "Some st" and pq = "None", OF ids] st
  show "\<exists>result. list_tickets (Some st) None (Some db) = Inr result \<and>
            list_all2 (\<lambda>d r. to_out d = Inr r)
              (filter (\<lambda>d. map_of d ''status'' = Some (VStr st)) (db ''ticket'')) result"
    by (simp add: matches_query_filter)
next
  from list_tickets_connected [where db = db and sq = "None" and pq = "Some pr", OF ids] pr
  show "\<exists>result. list_tickets None (Some pr) (Some db) = Inr result \<and>
            list_all2 (\<lambda>d r. to_out d = Inr r)
              (filter (\<lambda>d. map_of d ''priority'' = Some (VStr pr)) (db ''ticket'')) result"
    by (simp add: matches_query_filter)
next
  from list_tickets_connected [where db = db and sq = "None" and pq = "None", OF ids]
  show "\<exists>result. list_tickets None None (Some db) = Inr result \<and>
            list_all2 (\<lambda>d r. to_out d = Inr r) (db ''ticket'') result"
    by (simp add: matches_query_filter)
qed

theorem list_tickets_filters_witness:
  "\<exists>r rs. list_tickets (Some ''open'') (Some ''high'') (Some example_db) = Inr [r] \<and>
     map_of r ''id'' = Some (VStr id_a) \<and>
     list_tickets None None (Some example_db) = Inr rs \<and> length rs = 2"
proof -
  have st: "''open'' \<noteq> []" and pr: "''high'' \<noteq> []"
    by simp_all
  note h = list_tickets_filters [where db = example_db, OF example_tickets_have_id st pr]
  from h obtain result where
    r1: "list_tickets (Some ''open'') (Some ''high'') (Some example_db) = Inr result" and
    r2: "list_all2 (\<lambda>d r. to_out d = Inr r)
          (filter (\<lambda>d. map_of d ''status'' = Some (VStr ''open'') \<and>
               map_of d ''priority'' = Some (VStr ''high'')) (example_db ''ticket'')) result"
    by (elim conjE exE)
  from r2 obtain r where r: "result = [r]" "to_out ticket_a = Inr r"
    unfolding example_open_high by (auto simp: list_all2_Cons1)
  have "map_of ticket_a ''_id'' = Some (VObjectId (Oid id_a))"
    by (simp add: ticket_a_def)
  with r(2) have id: "map_of r ''id'' = Some (VStr id_a)"
    using to_out_id by fastforce
  from h obtain rs where
    a1: "list_tickets None None (Some example_db) = Inr rs" and
    a2: "list_all2 (\<lambda>d r. to_out d = Inr r) (example_db ''ticket'') rs"
    by (elim conjE exE)
  from a2 have "length rs = 2"
    by (simp add: list_all2_lengthD [symmetric] example_db_def)
  with r1 r(1) id a1 show ?thesis
    by blast
qed

end
